theory Spec2Isabelle
  imports Main "HOL-Library.Sublist"
begin

section \<open>JavaScript strings, arrays and object literals\<close>

text \<open>
  The query builder of the external AI service (\<^verbatim>\<open>utils/soqlBuilder.js\<close>), its schema
  (\<^verbatim>\<open>config/salesforceMapping.js\<close>) and the keyword fallback of
  \<^verbatim>\<open>services/openaiService.js\<close> are embedded as HOL functions.

  A JavaScript string is modelled as a \<open>string\<close>, one \<open>char\<close> per code unit. A
  \<open>char\<close> has eight bits, so the model covers the strings of code units below 256
  (ASCII and the Latin-1 supplement). There the white space of \<^verbatim>\<open>trim\<close> and of
  \<^verbatim>\<open>\s\<close> is tab, line feed, vertical tab, form feed, carriage return, space and the
  no-break space U+00A0. \<^verbatim>\<open>toLowerCase\<close> changes the 26 capitals and the 30 capitals
  U+00C0 to U+00DE (without the sign U+00D7). \<^verbatim>\<open>toUpperCase\<close> changes the 26 small
  letters and the 30 small letters U+00E0 to U+00FE (without the sign U+00F7), and
  writes SS for the sharp s U+00DF. The capitals of the two remaining small letters,
  U+00B5 and U+00FF, are U+039C and U+0178, code units that a \<open>char\<close> cannot hold: the
  model leaves these two as they are. The source looks for ASCII text only in an
  upper-case string, and neither the two letters nor their capitals are ASCII.
\<close>

definition asciiLower :: string where
  "asciiLower = ''abcdefghijklmnopqrstuvwxyz''"

definition asciiUpper :: string where
  "asciiUpper = ''ABCDEFGHIJKLMNOPQRSTUVWXYZ''"

definition latinLower :: string where
  "latinLower =
    [CHR 0xE0, CHR 0xE1, CHR 0xE2, CHR 0xE3, CHR 0xE4, CHR 0xE5, CHR 0xE6, CHR 0xE7,
     CHR 0xE8, CHR 0xE9, CHR 0xEA, CHR 0xEB, CHR 0xEC, CHR 0xED, CHR 0xEE, CHR 0xEF,
     CHR 0xF0, CHR 0xF1, CHR 0xF2, CHR 0xF3, CHR 0xF4, CHR 0xF5, CHR 0xF6, CHR 0xF8,
     CHR 0xF9, CHR 0xFA, CHR 0xFB, CHR 0xFC, CHR 0xFD, CHR 0xFE]"

definition latinUpper :: string where
  "latinUpper =
    [CHR 0xC0, CHR 0xC1, CHR 0xC2, CHR 0xC3, CHR 0xC4, CHR 0xC5, CHR 0xC6, CHR 0xC7,
     CHR 0xC8, CHR 0xC9, CHR 0xCA, CHR 0xCB, CHR 0xCC, CHR 0xCD, CHR 0xCE, CHR 0xCF,
     CHR 0xD0, CHR 0xD1, CHR 0xD2, CHR 0xD3, CHR 0xD4, CHR 0xD5, CHR 0xD6, CHR 0xD8,
     CHR 0xD9, CHR 0xDA, CHR 0xDB, CHR 0xDC, CHR 0xDD, CHR 0xDE]"

definition toLowerChar :: "char \<Rightarrow> char" where
  "toLowerChar c =
    (case map_of (zip (asciiUpper @ latinUpper) (asciiLower @ latinLower)) c of
       Some l \<Rightarrow> l
     | None \<Rightarrow> c)"

definition toUpperChars :: "char \<Rightarrow> string" where
  "toUpperChars c =
    (if c = CHR 0xDF then ''SS''
     else
       (case map_of (zip (asciiLower @ latinLower) (asciiUpper @ latinUpper)) c of
          Some u \<Rightarrow> [u]
        | None \<Rightarrow> [c]))"

definition toUpperCase :: "string \<Rightarrow> string" where
  "toUpperCase s = concat (map toUpperChars s)"

definition toLowerCase :: "string \<Rightarrow> string" where
  "toLowerCase s = map toLowerChar s"

text \<open>
  The flag \<^verbatim>\<open>i\<close> of a regular expression (without the flag \<^verbatim>\<open>u\<close>) compares the
  canonical forms of code units: the capital of the one code unit, unless that capital
  is more than one code unit (the sharp s stays) or is ASCII where the code unit is not.
  So a code unit from 128 on never becomes an ASCII letter. U+00B5 and U+00FF are left
  as above.
\<close>

definition canonicalize :: "char \<Rightarrow> char" where
  "canonicalize c =
    (case map_of (zip (asciiLower @ latinLower) (asciiUpper @ latinUpper)) c of
       Some u \<Rightarrow> u
     | None \<Rightarrow> c)"

definition isSpace :: "char \<Rightarrow> bool" where
  "isSpace c =
    (c \<in> set [CHR 0x09, CHR 0x0A, CHR 0x0B, CHR 0x0C, CHR 0x0D, CHR '' '', CHR 0xA0])"

definition trim :: "string \<Rightarrow> string" where
  "trim s = rev (dropWhile isSpace (rev (dropWhile isSpace s)))"

text \<open>\<^verbatim>\<open>s.includes(t)\<close> on strings: \<open>t\<close> occurs in \<open>s\<close> as a contiguous substring.\<close>

fun includes_str :: "string \<Rightarrow> string \<Rightarrow> bool" where
  "includes_str [] t = (t = [])"
| "includes_str (c # cs) t = (prefix t (c # cs) \<or> includes_str cs t)"

text \<open>\<^verbatim>\<open>xs.join(sep)\<close> on an array of strings.\<close>

fun join :: "string \<Rightarrow> string list \<Rightarrow> string" where
  "join sep [] = []"
| "join sep [x] = x"
| "join sep (x # y # ys) = x @ sep @ join sep (y # ys)"

text \<open>
  \<^verbatim>\<open>[...new Set(xs)]\<close>: a Set keeps its elements in insertion order and ignores the
  insertion of an element it already has.
\<close>

definition setAdd :: "'a list \<Rightarrow> 'a \<Rightarrow> 'a list" where
  "setAdd s x = (if x \<in> set s then s else s @ [x])"

definition newSet :: "'a list \<Rightarrow> 'a list" where
  "newSet xs = foldl setAdd [] xs"

text \<open>
  \<^verbatim>\<open>table[key]\<close> on an object literal. The literal's own keys come first; a key that is
  not an own key is looked up in \<^verbatim>\<open>Object.prototype\<close>, whose members are functions (and,
  for \<^verbatim>\<open>__proto__\<close>, the prototype object): truthy values that are not arrays and have
  no property \<^verbatim>\<open>fields\<close>. Every other key yields \<^verbatim>\<open>undefined\<close>.
\<close>

datatype 'a member = Own 'a | Inherited | Missing

definition objectPrototype :: "string list" where
  "objectPrototype =
    [''constructor'', ''__defineGetter__'', ''__defineSetter__'', ''hasOwnProperty'',
     ''__lookupGetter__'', ''__lookupSetter__'', ''isPrototypeOf'', ''propertyIsEnumerable'',
     ''toString'', ''valueOf'', ''__proto__'', ''toLocaleString'']"

definition getMember :: "(string \<times> 'a) list \<Rightarrow> string \<Rightarrow> 'a member" where
  "getMember tbl k =
    (case map_of tbl k of
       Some v \<Rightarrow> Own v
     | None \<Rightarrow> if k \<in> set objectPrototype then Inherited else Missing)"

text \<open>
  What a \<^verbatim>\<open>throw\<close> raises: an \<^verbatim>\<open>Error\<close> with its message, or the \<^verbatim>\<open>TypeError\<close> of the
  runtime (a property read on \<^verbatim>\<open>undefined\<close>, a call of something that is no function).
\<close>

datatype exn = Error string | TypeError

section \<open>The schema of \<^verbatim>\<open>salesforceMapping\<close>\<close>

record sobject =
  label :: string
  schema_fields :: "string list"
  relationships :: "string list"

definition accountFields :: "string list" where
  "accountFields =
    [''Id'', ''Name'', ''AccountNumber'', ''Type'', ''Industry'', ''Rating'', ''Phone'', ''Fax'',
     ''Website'', ''PhotoUrl'', ''BillingStreet'', ''BillingCity'', ''BillingState'',
     ''BillingPostalCode'', ''BillingCountry'', ''ShippingStreet'', ''ShippingCity'',
     ''ShippingState'', ''ShippingPostalCode'', ''ShippingCountry'', ''Description'',
     ''NumberOfEmployees'', ''AnnualRevenue'', ''OwnerId'', ''CreatedDate'', ''CreatedById'',
     ''LastModifiedDate'', ''LastModifiedById'', ''SystemModstamp'', ''LastActivityDate'',
     ''LastViewedDate'', ''LastReferencedDate'', ''IsDeleted'', ''MasterRecordId'',
     ''ParentId'', ''Active__c'', ''AUM__c'', ''Client_Since__c'', ''Priority__c'']"

definition contactFields :: "string list" where
  "contactFields =
    [''Id'', ''IsDeleted'', ''MasterRecordId'', ''AccountId'', ''LastName'', ''FirstName'',
     ''Salutation'', ''Name'', ''OtherStreet'', ''OtherCity'', ''OtherState'', ''OtherPostalCode'',
     ''OtherCountry'', ''MailingStreet'', ''MailingCity'', ''MailingState'', ''MailingPostalCode'',
     ''MailingCountry'', ''Phone'', ''Fax'', ''MobilePhone'', ''HomePhone'', ''OtherPhone'',
     ''AssistantPhone'', ''ReportsToId'', ''Email'', ''Title'', ''Department'', ''AssistantName'',
     ''LeadSource'', ''Birthdate'', ''Description'', ''CreatedDate'', ''CreatedById'',
     ''LastModifiedDate'', ''LastModifiedById'', ''SystemModstamp'', ''LastActivityDate'',
     ''LastCURequestDate'', ''LastCUUpdateDate'', ''LastViewedDate'', ''LastReferencedDate'',
     ''EmailBouncedReason'', ''EmailBouncedDate'', ''IsEmailBounced'', ''PhotoUrl'',
     ''Jigsaw'', ''JigsawContactId'', ''CleanStatus'', ''IndividualId'', ''Level__c'',
     ''Languages__c'', ''Birthday_Month__c'', ''VIP_Status__c'']"

definition leadFields :: "string list" where
  "leadFields =
    [''Id'', ''IsDeleted'', ''MasterRecordId'', ''LastName'', ''FirstName'', ''Salutation'',
     ''Name'', ''Title'', ''Company'', ''Street'', ''City'', ''State'', ''PostalCode'', ''Country'',
     ''Phone'', ''MobilePhone'', ''Fax'', ''Email'', ''Website'', ''PhotoUrl'', ''Description'',
     ''LeadSource'', ''Status'', ''Industry'', ''Rating'', ''AnnualRevenue'', ''NumberOfEmployees'',
     ''OwnerId'', ''IsConverted'', ''ConvertedDate'', ''ConvertedAccountId'', ''ConvertedContactId'',
     ''ConvertedOpportunityId'', ''IsUnreadByOwner'', ''CreatedDate'', ''CreatedById'',
     ''LastModifiedDate'', ''LastModifiedById'', ''SystemModstamp'', ''LastActivityDate'',
     ''LastViewedDate'', ''LastReferencedDate'', ''Jigsaw'', ''JigsawContactId'', ''CleanStatus'',
     ''IndividualId'', ''CompanyDunsNumber'', ''DandbCompanyId'', ''EmailBouncedReason'',
     ''EmailBouncedDate'', ''IsEmailBounced'', ''SICCode__c'', ''ProductInterest__c'',
     ''Primary__c'', ''CurrentGenerators__c'', ''NumberofLocations__c'']"

definition opportunityFields :: "string list" where
  "opportunityFields =
    [''Id'', ''IsDeleted'', ''AccountId'', ''RecordTypeId'', ''Name'', ''Amount'', ''CloseDate'',
     ''StageName'', ''Type'', ''Probability'', ''ExpectedRevenue'', ''TotalOpportunityQuantity'',
     ''CloseDate'', ''Type'', ''NextStep'', ''LeadSource'', ''IsClosed'', ''IsWon'', ''ForecastCategory'',
     ''ForecastCategoryName'', ''CampaignId'', ''HasOpportunityLineItem'', ''Pricebook2Id'',
     ''OwnerId'', ''CreatedDate'', ''CreatedById'', ''LastModifiedDate'', ''LastModifiedById'',
     ''SystemModstamp'', ''LastActivityDate'', ''LastStageChangeDate'', ''FiscalYear'',
     ''FiscalQuarter'', ''Fiscal'', ''ContactId'', ''LastViewedDate'', ''LastReferencedDate'',
     ''Description'', ''Type'', ''LeadSource'', ''HasOpenActivity'', ''HasOverdueTask'',
     ''DeliveryInstallationStatus__c'', ''TrackingNumber__c'', ''OrderNumber__c'',
     ''CurrentGenerators__c'', ''MainCompetitors__c'', ''DeliveryInstallationStatus__c'']"

definition caseFields :: "string list" where
  "caseFields =
    [''Id'', ''IsDeleted'', ''CaseNumber'', ''ContactId'', ''AccountId'', ''AssetId'', ''ParentId'',
     ''SuppliedName'', ''SuppliedEmail'', ''SuppliedPhone'', ''SuppliedCompany'', ''Type'',
     ''Status'', ''Reason'', ''Origin'', ''Subject'', ''Priority'', ''Description'', ''IsClosed'',
     ''IsEscalated'', ''OwnerId'', ''CreatedDate'', ''CreatedById'', ''LastModifiedDate'',
     ''LastModifiedById'', ''SystemModstamp'', ''LastViewedDate'', ''LastReferencedDate'',
     ''ClosedDate'', ''IsClosedOnCreate'', ''EscalationStartTime'', ''BusinessHoursId'',
     ''IsStopped'', ''StopStartDate'', ''ContactEmail'', ''ContactPhone'', ''ContactMobile'',
     ''ContactFax'', ''Comments'', ''LastCaseUpdate'', ''CreatedByRole'', ''LastModifiedByRole'',
     ''IsVisibleInSelfService'', ''Days_Since_Last_Update__c'', ''Escalation_Level__c'',
     ''SLA_Breach__c'', ''Customer_Satisfaction__c'']"

definition taskFields :: "string list" where
  "taskFields =
    [''Id'', ''WhoId'', ''WhatId'', ''WhoCount'', ''WhatCount'', ''Subject'', ''ActivityDate'',
     ''Status'', ''Priority'', ''Description'', ''Type'', ''IsDeleted'', ''AccountId'', ''IsArchived'',
     ''CallDurationInSeconds'', ''CallType'', ''CallDisposition'', ''CallObject'', ''ReminderDateTime'',
     ''IsReminderSet'', ''RecurrenceActivityId'', ''IsRecurrence'', ''RecurrenceStartDateOnly'',
     ''RecurrenceEndDateOnly'', ''RecurrenceTimeZoneSidKey'', ''RecurrenceType'', ''RecurrenceInterval'',
     ''RecurrenceDayOfWeekMask'', ''RecurrenceDayOfMonth'', ''RecurrenceInstance'',
     ''RecurrenceMonthOfYear'', ''RecurrenceRegeneratedType'', ''TaskSubtype'', ''CompletedDateTime'',
     ''CreatedDate'', ''CreatedById'', ''LastModifiedDate'', ''LastModifiedById'', ''SystemModstamp'',
     ''IsArchived'', ''CallDurationInSeconds'', ''CallType'', ''CallDisposition'', ''CallObject'',
     ''ReminderDateTime'', ''IsReminderSet'', ''RecurrenceActivityId'', ''IsRecurrence'',
     ''RecurrenceStartDateOnly'', ''RecurrenceEndDateOnly'', ''RecurrenceTimeZoneSidKey'',
     ''RecurrenceType'', ''RecurrenceInterval'', ''RecurrenceDayOfWeekMask'', ''RecurrenceDayOfMonth'',
     ''RecurrenceInstance'', ''RecurrenceMonthOfYear'', ''RecurrenceRegeneratedType'',
     ''TaskSubtype'', ''CompletedDateTime'', ''CreatedDate'', ''CreatedById'', ''LastModifiedDate'',
     ''LastModifiedById'', ''SystemModstamp'', ''IsArchived'', ''CallDurationInSeconds'',
     ''CallType'', ''CallDisposition'', ''CallObject'', ''ReminderDateTime'', ''IsReminderSet'',
     ''RecurrenceActivityId'', ''IsRecurrence'', ''RecurrenceStartDateOnly'', ''RecurrenceEndDateOnly'',
     ''RecurrenceTimeZoneSidKey'', ''RecurrenceType'', ''RecurrenceInterval'', ''RecurrenceDayOfWeekMask'',
     ''RecurrenceDayOfMonth'', ''RecurrenceInstance'', ''RecurrenceMonthOfYear'',
     ''RecurrenceRegeneratedType'', ''TaskSubtype'', ''CompletedDateTime'', ''CreatedDate'',
     ''CreatedById'', ''LastModifiedDate'', ''LastModifiedById'', ''SystemModstamp'']"

definition eventFields :: "string list" where
  "eventFields =
    [''Id'', ''WhoId'', ''WhatId'', ''WhoCount'', ''WhatCount'', ''Subject'', ''Location'',
     ''IsAllDayEvent'', ''ActivityDateTime'', ''ActivityDate'', ''DurationInMinutes'',
     ''StartDateTime'', ''EndDateTime'', ''Description'', ''Type'', ''IsPrivate'', ''ShowAs'',
     ''IsDeleted'', ''IsArchived'', ''IsGroupEvent'', ''GroupEventType'', ''CreatedDate'',
     ''CreatedById'', ''LastModifiedDate'', ''LastModifiedById'', ''SystemModstamp'',
     ''IsArchived'', ''RecurrenceActivityId'', ''IsRecurrence'', ''RecurrenceStartDateOnly'',
     ''RecurrenceEndDateOnly'', ''RecurrenceTimeZoneSidKey'', ''RecurrenceType'',
     ''RecurrenceInterval'', ''RecurrenceDayOfWeekMask'', ''RecurrenceDayOfMonth'',
     ''RecurrenceInstance'', ''RecurrenceMonthOfYear'', ''RecurrenceRegeneratedType'',
     ''Subject'', ''Location'', ''IsAllDayEvent'', ''ActivityDateTime'', ''ActivityDate'',
     ''DurationInMinutes'', ''StartDateTime'', ''EndDateTime'', ''Description'', ''Type'',
     ''IsPrivate'', ''ShowAs'', ''IsDeleted'', ''IsArchived'', ''IsGroupEvent'', ''GroupEventType'']"

text \<open>\<^verbatim>\<open>buildSchema().objects\<close>, an object literal of seven own keys.\<close>

definition schemaObjects :: "(string \<times> sobject) list" where
  "schemaObjects =
    [(''Account'', \<lparr>label = ''Account'', schema_fields = accountFields,
        relationships = [''Parent'', ''Contacts'', ''Opportunities'', ''Cases'', ''Tasks'', ''Events'']\<rparr>),
     (''Contact'', \<lparr>label = ''Contact'', schema_fields = contactFields,
        relationships = [''Account'', ''ReportsTo'', ''Opportunities'', ''Cases'', ''Tasks'', ''Events'']\<rparr>),
     (''Lead'', \<lparr>label = ''Lead'', schema_fields = leadFields,
        relationships = [''Owner'', ''ConvertedAccount'', ''ConvertedContact'', ''ConvertedOpportunity'']\<rparr>),
     (''Opportunity'', \<lparr>label = ''Opportunity'', schema_fields = opportunityFields,
        relationships = [''Account'', ''Contact'', ''Owner'', ''Campaign'', ''Pricebook2'',
          ''OpportunityLineItems'']\<rparr>),
     (''Case'', \<lparr>label = ''Case'', schema_fields = caseFields,
        relationships = [''Account'', ''Contact'', ''Asset'', ''Parent'', ''Owner'', ''BusinessHours'']\<rparr>),
     (''Task'', \<lparr>label = ''Task'', schema_fields = taskFields,
        relationships = [''Who'', ''What'', ''Account'', ''Owner'']\<rparr>),
     (''Event'', \<lparr>label = ''Event'', schema_fields = eventFields,
        relationships = [''Who'', ''What'', ''Owner'']\<rparr>)]"

text \<open>
  \<^verbatim>\<open>salesforceMapping.isValidObject\<close>: \<^verbatim>\<open>hasOwnProperty\<close>, so the object has an entry
  of its own in the schema.
\<close>

definition isValidObject :: "string \<Rightarrow> bool" where
  "isValidObject objectName = (map_of schemaObjects objectName \<noteq> None)"

section \<open>\<^verbatim>\<open>openaiService.fallbackProcessing\<close>\<close>

text \<open>
  The structured response handed to the builder (its \<^verbatim>\<open>fields\<close> is \<open>ai_fields\<close>
  here). Every producer in \<^verbatim>\<open>openaiService\<close> sets \<^verbatim>\<open>success\<close> to true.
\<close>

record aiResponse =
  success :: bool
  intent :: string
  object :: string
  ai_fields :: "string list"
  conditions :: "string list"
  explanation :: string

definition fallbackProcessing :: "string \<Rightarrow> aiResponse" where
  "fallbackProcessing query =
    (let lowerQuery = toLowerCase query;
         obj =
           (if includes_str lowerQuery ''contact'' \<or> includes_str lowerQuery ''person''
              then ''Contact''
            else if includes_str lowerQuery ''lead'' then ''Lead''
            else if includes_str lowerQuery ''opportunity'' \<or> includes_str lowerQuery ''deal''
              then ''Opportunity''
            else if includes_str lowerQuery ''case'' \<or> includes_str lowerQuery ''support''
              then ''Case''
            else ''Account'')
     in \<lparr>success = True, intent = query, object = obj,
          ai_fields = [''Id'', ''Name'', ''CreatedDate''], conditions = [],
          explanation = ''Basic processing: '' @ query @ '' (OpenAI not available)''\<rparr>)"

section \<open>\<^verbatim>\<open>soqlBuilder\<close>: the clauses\<close>

definition standardFields :: "string list" where
  "standardFields = [''Id'', ''Name'', ''CreatedDate'', ''LastModifiedDate'']"

text \<open>
  \<^verbatim>\<open>isFieldValid\<close>. For a name inherited from \<^verbatim>\<open>Object.prototype\<close> the first test
  passes (the member is truthy) and \<^verbatim>\<open>.fields.includes\<close> reads a property of
  \<^verbatim>\<open>undefined\<close>.
\<close>

definition isFieldValid :: "string \<Rightarrow> string \<Rightarrow> exn + bool" where
  "isFieldValid field obj =
    (case getMember schemaObjects obj of
       Missing \<Rightarrow> Inr False
     | Inherited \<Rightarrow> Inl TypeError
     | Own e \<Rightarrow> Inr (field \<in> set (schema_fields e) \<or> includes_str field ''__c''
                    \<or> field \<in> set standardFields))"

text \<open>\<^verbatim>\<open>fields.filter(field => this.isFieldValid(field, object))\<close>, left to right.\<close>

fun filterValid :: "string list \<Rightarrow> string \<Rightarrow> exn + string list" where
  "filterValid [] obj = Inr []"
| "filterValid (f # fs) obj =
    (case isFieldValid f obj of
       Inl e \<Rightarrow> Inl e
     | Inr ok \<Rightarrow>
        (case filterValid fs obj of
           Inl e \<Rightarrow> Inl e
         | Inr r \<Rightarrow> Inr (if ok then f # r else r)))"

definition defaultFields :: "(string \<times> string list) list" where
  "defaultFields =
    [(''Account'', [''Id'', ''Name'', ''Industry'', ''Type'', ''CreatedDate'']),
     (''Contact'', [''Id'', ''Name'', ''Email'', ''Phone'', ''Title'', ''CreatedDate'']),
     (''Lead'', [''Id'', ''Name'', ''Company'', ''Email'', ''Status'', ''CreatedDate'']),
     (''Opportunity'', [''Id'', ''Name'', ''Amount'', ''StageName'', ''CloseDate'', ''CreatedDate'']),
     (''Case'', [''Id'', ''CaseNumber'', ''Subject'', ''Status'', ''Priority'', ''CreatedDate'']),
     (''Task'', [''Id'', ''Subject'', ''Status'', ''Priority'', ''CreatedDate'']),
     (''Event'', [''Id'', ''Subject'', ''StartDateTime'', ''EndDateTime'', ''CreatedDate''])]"

definition defaultConditions :: "(string \<times> string list) list" where
  "defaultConditions =
    [(''Account'', [''IsDeleted = false'']),
     (''Contact'', [''IsDeleted = false'']),
     (''Lead'', [''IsDeleted = false'']),
     (''Opportunity'', [''IsDeleted = false'']),
     (''Case'', [''IsDeleted = false'']),
     (''Task'', [''IsDeleted = false'']),
     (''Event'', [''IsDeleted = false''])]"

definition orderFields :: "(string \<times> string list) list" where
  "orderFields =
    [(''Account'', [''Name'']),
     (''Contact'', [''Name'']),
     (''Lead'', [''Name'']),
     (''Opportunity'', [''CloseDate DESC'']),
     (''Case'', [''CreatedDate DESC'']),
     (''Task'', [''CreatedDate DESC'']),
     (''Event'', [''StartDateTime''])]"

text \<open>
  \<^verbatim>\<open>table[object] || fallback\<close>: \<open>None\<close> stands for a member inherited from
  \<^verbatim>\<open>Object.prototype\<close>, which is truthy and so returned as it is, and is not an array.
\<close>

definition orElse :: "'a member \<Rightarrow> 'a \<Rightarrow> 'a option" where
  "orElse m d = (case m of Own v \<Rightarrow> Some v | Inherited \<Rightarrow> None | Missing \<Rightarrow> Some d)"

definition getDefaultFields :: "string \<Rightarrow> string list option" where
  "getDefaultFields obj = orElse (getMember defaultFields obj) [''Id'', ''Name'', ''CreatedDate'']"

definition getDefaultConditions :: "string \<Rightarrow> string list option" where
  "getDefaultConditions obj = orElse (getMember defaultConditions obj) [''IsDeleted = false'']"

definition getOrderByFields :: "string \<Rightarrow> string list option" where
  "getOrderByFields obj = orElse (getMember orderFields obj) [''CreatedDate DESC'']"

text \<open>
  \<^verbatim>\<open>buildSelectClause\<close>, in three parts. \<open>validFields\<close> is the constant of that name in
  the source: the list that is joined into the clause. An empty input is replaced by the
  defaults (an assignment to the parameter, which the caller does not see);
  \<^verbatim>\<open>fields.includes\<close> on a value that is not an array is a \<^verbatim>\<open>TypeError\<close>.
\<close>

definition validFields :: "string list \<Rightarrow> string \<Rightarrow> exn + string list" where
  "validFields flds obj =
    (case (if flds = [] then getDefaultFields obj else Some flds) of
       None \<Rightarrow> Inl TypeError
     | Some fs \<Rightarrow>
        (case filterValid (if ''Id'' \<in> set fs then fs else ''Id'' # fs) obj of
           Inl e \<Rightarrow> Inl e
         | Inr vf \<Rightarrow> Inr (if vf = [] then [''Id'', ''Name''] else vf)))"

text \<open>
  \<^verbatim>\<open>fields.unshift('Id')\<close> changes the array in place. When the caller's array is not
  empty it is that very array, so the caller sees the new element.
\<close>

definition unshiftId :: "string list \<Rightarrow> string list" where
  "unshiftId flds = (if flds = [] \<or> ''Id'' \<in> set flds then flds else ''Id'' # flds)"

text \<open>The clause, and the caller's array as the call leaves it.\<close>

definition buildSelectClause :: "string list \<Rightarrow> string \<Rightarrow> exn + (string \<times> string list)" where
  "buildSelectClause flds obj =
    (case validFields flds obj of
       Inl e \<Rightarrow> Inl e
     | Inr vf \<Rightarrow> Inr (''SELECT '' @ join '', '' vf, unshiftId flds))"

definition buildFromClause :: "string \<Rightarrow> string" where
  "buildFromClause obj = ''FROM '' @ obj"

definition extractConditionsFromQuery :: "string \<Rightarrow> string \<Rightarrow> string list" where
  "extractConditionsFromQuery query obj =
    (let lowerQuery = toLowerCase query in
       (if includes_str lowerQuery ''this month'' \<or> includes_str lowerQuery ''current month''
          then [''CreatedDate = THIS_MONTH'']
        else if includes_str lowerQuery ''last month'' then [''CreatedDate = LAST_MONTH'']
        else if includes_str lowerQuery ''this quarter'' then [''CreatedDate = THIS_QUARTER'']
        else if includes_str lowerQuery ''last quarter'' then [''CreatedDate = LAST_QUARTER'']
        else if includes_str lowerQuery ''this year'' then [''CreatedDate = THIS_YEAR'']
        else if includes_str lowerQuery ''last year'' then [''CreatedDate = LAST_YEAR'']
        else [])
       @ (if includes_str lowerQuery ''active'' \<or> includes_str lowerQuery ''open''
          then (if obj = ''Account'' then [''Active__c = true'']
                else if obj = ''Opportunity'' then [''IsClosed = false'']
                else if obj = ''Case'' then [''Status != '' @ [CHR 0x27] @ ''Closed'' @ [CHR 0x27]]
                else [])
          else [])
       @ (if includes_str lowerQuery ''high revenue'' \<or> includes_str lowerQuery ''high value''
          then (if obj = ''Opportunity'' then [''Amount > 100000'']
                else if obj = ''Account'' then [''AnnualRevenue > 1000000'']
                else [])
          else [])
       @ (if includes_str lowerQuery ''technology'' \<or> includes_str lowerQuery ''tech''
          then (if obj = ''Account''
                then [''Industry = '' @ [CHR 0x27] @ ''Technology'' @ [CHR 0x27]]
                else [])
          else []))"

text \<open>
  \<^verbatim>\<open>buildWhereClause\<close>. \<open>whereConditions\<close> and \<open>uniqueConditions\<close> are the constants
  of those names in the source. Spreading a value that is not iterable is a
  \<^verbatim>\<open>TypeError\<close>. The filter \<^verbatim>\<open>c => c && c.trim()\<close> keeps a string that is not empty
  and whose trimmed form is not empty.
\<close>

definition whereConditions :: "string list \<Rightarrow> string \<Rightarrow> string \<Rightarrow> exn + string list" where
  "whereConditions conds originalQuery obj =
    (case getDefaultConditions obj of
       None \<Rightarrow> Inl TypeError
     | Some d \<Rightarrow> Inr (conds @ extractConditionsFromQuery originalQuery obj @ d))"

definition uniqueConditions :: "string list \<Rightarrow> string list" where
  "uniqueConditions ws = newSet (filter (\<lambda>c. c \<noteq> [] \<and> trim c \<noteq> []) ws)"

definition buildWhereClause :: "string list \<Rightarrow> string \<Rightarrow> string \<Rightarrow> exn + string" where
  "buildWhereClause conds originalQuery obj =
    (case whereConditions conds originalQuery obj of
       Inl e \<Rightarrow> Inl e
     | Inr ws \<Rightarrow>
        Inr (if ws = [] then []
             else if uniqueConditions ws = [] then []
             else ''WHERE '' @ join '' AND '' (uniqueConditions ws)))"

text \<open>
  \<^verbatim>\<open>buildOrderByClause\<close>. A member inherited from \<^verbatim>\<open>Object.prototype\<close> is no
  array, and \<^verbatim>\<open>orderFields.length > 0\<close> reads the member's own length: 0 for the
  functions \<^verbatim>\<open>toString\<close>, \<^verbatim>\<open>valueOf\<close> and \<^verbatim>\<open>toLocaleString\<close>, and
  \<^verbatim>\<open>undefined\<close> for the prototype object under \<^verbatim>\<open>__proto__\<close>, so that the test
  fails and the clause is empty; at least 1 for the other members, where
  \<^verbatim>\<open>orderFields.join\<close> is no function.
\<close>

definition zeroLengthMembers :: "string list" where
  "zeroLengthMembers = [''toString'', ''valueOf'', ''toLocaleString'', ''__proto__'']"

definition buildOrderByClause :: "string \<Rightarrow> exn + string" where
  "buildOrderByClause obj =
    (case getOrderByFields obj of
       None \<Rightarrow> if obj \<in> set zeroLengthMembers then Inr [] else Inl TypeError
     | Some fs \<Rightarrow> Inr (if fs \<noteq> [] then ''ORDER BY '' @ join '', '' fs else []))"

section \<open>\<^verbatim>\<open>soqlBuilder.generateSOQL\<close>\<close>

text \<open>
  The successful result \<^verbatim>\<open>{success: true, soql, fields, object, conditions}\<close>; the result
  of the \<^verbatim>\<open>catch\<close> branch, \<^verbatim>\<open>{success: false, error: error.message, soql: null}\<close>, is the
  exception on the left of the sum.
\<close>

record soqlResult =
  soql :: string
  result_fields :: "string list"
  result_object :: string
  result_conditions :: "string list"

definition limitClause :: string where
  "limitClause = ''LIMIT 1000''"

definition generateSOQL :: "aiResponse \<Rightarrow> string \<Rightarrow> exn + soqlResult" where
  "generateSOQL r originalQuery =
    (if \<not> success r then Inl (Error ''AI response indicates failure'')
     else
       (case getMember schemaObjects (object r) of
          Missing \<Rightarrow> Inl (Error (''Unsupported object: '' @ object r))
        | _ \<Rightarrow>
          (case buildSelectClause (ai_fields r) (object r) of
             Inl e \<Rightarrow> Inl e
           | Inr (selectClause, flds) \<Rightarrow>
              (case buildWhereClause (conditions r) originalQuery (object r) of
                 Inl e \<Rightarrow> Inl e
               | Inr whereClause \<Rightarrow>
                  (case buildOrderByClause (object r) of
                     Inl e \<Rightarrow> Inl e
                   | Inr orderByClause \<Rightarrow>
                      Inr \<lparr>soql = trim (selectClause @ '' '' @ buildFromClause (object r) @ '' ''
                                      @ whereClause @ '' '' @ orderByClause @ '' '' @ limitClause),
                           result_fields = flds,
                           result_object = object r,
                           result_conditions = conditions r\<rparr>)))))"

section \<open>\<^verbatim>\<open>soqlBuilder.validateSOQL\<close>\<close>

record validation =
  isValid :: bool
  error :: "string option"

definition invalid :: "string \<Rightarrow> validation" where
  "invalid msg = \<lparr>isValid = False, error = Some msg\<rparr>"

definition valid :: validation where
  "valid = \<lparr>isValid = True, error = None\<rparr>"

definition forbiddenKeywords :: "string list" where
  "forbiddenKeywords = [''INSERT'', ''UPDATE'', ''DELETE'', ''DROP'', ''CREATE'', ''ALTER'']"

definition isDigit :: "char \<Rightarrow> bool" where
  "isDigit c = (c \<in> set ''0123456789'')"

definition digitVal :: "char \<Rightarrow> nat" where
  "digitVal c =
    (case map_of (zip ''0123456789'' [0, 1, 2, 3, 4, 5, 6, 7, 8, 9]) c of
       Some d \<Rightarrow> d | None \<Rightarrow> 0)"

text \<open>
  \<^verbatim>\<open>parseInt\<close> on a string of decimal digits. The source compares the result with 2000
  only; the rounding of a long digit string to a double is monotone and leaves that
  comparison as it is for the exact number.
\<close>

definition parseInt :: "string \<Rightarrow> nat" where
  "parseInt ds = foldl (\<lambda>n c. 10 * n + digitVal c) 0 ds"

text \<open>
  \<^verbatim>\<open>soql.match(/LIMIT\s+(\d+)/i)\<close>: the leftmost position at which the five letters
  (in either case), then at least one white space character, then at least one digit
  follow each other; the group is the longest run of digits there. The two character
  classes are disjoint, so backtracking finds no other match at a position.
\<close>

definition limitMatchAt :: "string \<Rightarrow> string option" where
  "limitMatchAt s =
    (if map canonicalize (take 5 s) = ''LIMIT''
        \<and> takeWhile isSpace (drop 5 s) \<noteq> []
        \<and> takeWhile isDigit (dropWhile isSpace (drop 5 s)) \<noteq> []
     then Some (takeWhile isDigit (dropWhile isSpace (drop 5 s)))
     else None)"

fun limitMatch :: "string \<Rightarrow> string option" where
  "limitMatch [] = None"
| "limitMatch (c # cs) =
    (case limitMatchAt (c # cs) of
       Some ds \<Rightarrow> Some ds
     | None \<Rightarrow> limitMatch cs)"

text \<open>
  The argument is a string here; the empty string is the falsy one. The loop over the
  forbidden keywords returns at the first keyword found.
\<close>

definition validateSOQL :: "string \<Rightarrow> validation" where
  "validateSOQL text =
    (if text = [] then invalid ''SOQL query is required and must be a string''
     else if \<not> includes_str (toUpperCase text) ''SELECT '' then invalid ''Missing SELECT clause''
     else if \<not> includes_str (toUpperCase text) '' FROM '' then invalid ''Missing FROM clause''
     else
       (case find (includes_str (toUpperCase text)) forbiddenKeywords of
          Some keyword \<Rightarrow> invalid (''Forbidden keyword detected: '' @ keyword)
        | None \<Rightarrow>
           if \<not> includes_str (toUpperCase text) '' LIMIT ''
           then invalid ''Missing LIMIT clause for performance''
           else
             (case limitMatch text of
                Some ds \<Rightarrow>
                  if parseInt ds > 2000 then invalid ''LIMIT value cannot exceed 2000'' else valid
              | None \<Rightarrow> valid)))"

section \<open>The WHERE clause in the words of the specification\<close>

text \<open>
  The specification builds the WHERE clause from the conditions of the intent, then the
  conditions derived from the query, then the default filters of the object:
  "Deduplicate by exact string equality (order of first occurrence preserved), drop
  blank/whitespace-only entries. Join surviving predicates with \<^verbatim>\<open>" AND "\<close>; omit the
  WHERE clause entirely if none survive." These definitions follow that sentence, not the
  source; \<open>buildWhereClause\<close> above is the source.
\<close>

fun spec_dedup_from :: "'a list \<Rightarrow> 'a list \<Rightarrow> 'a list" where
  "spec_dedup_from seen [] = []"
| "spec_dedup_from seen (x # xs) =
    (if x \<in> set seen then spec_dedup_from seen xs
     else x # spec_dedup_from (x # seen) xs)"

definition spec_dedup :: "'a list \<Rightarrow> 'a list" where
  "spec_dedup xs = spec_dedup_from [] xs"

text \<open>
  A blank or whitespace-only entry: every character of it, if it has any, is white space,
  which for the code units below 256 is the space, the no-break space, the tab, and the
  line feed, vertical tab, form feed and carriage return.
\<close>

definition spec_whitespace :: "char list" where
  "spec_whitespace = [CHR '' '', CHR 0xA0, CHR 0x09, CHR 0x0A, CHR 0x0B, CHR 0x0C, CHR 0x0D]"

definition spec_blank :: "string \<Rightarrow> bool" where
  "spec_blank c = list_all (\<lambda>ch. ch \<in> set spec_whitespace) c"

definition spec_predicates :: "string list \<Rightarrow> string list \<Rightarrow> string list \<Rightarrow> string list" where
  "spec_predicates intentConditions queryConditions defaultFilters =
    filter (\<lambda>c. \<not> spec_blank c)
      (spec_dedup (intentConditions @ queryConditions @ defaultFilters))"

definition spec_where :: "string list \<Rightarrow> string list \<Rightarrow> string list \<Rightarrow> string" where
  "spec_where intentConditions queryConditions defaultFilters =
    (if spec_predicates intentConditions queryConditions defaultFilters = [] then []
     else ''WHERE ''
       @ join '' AND '' (spec_predicates intentConditions queryConditions defaultFilters))"

section \<open>Auxiliary notions\<close>

text \<open>The test that \<open>isFieldValid\<close> makes on an entry of the schema.\<close>

definition fieldOk :: "sobject \<Rightarrow> string \<Rightarrow> bool" where
  "fieldOk e f = (f \<in> set (schema_fields e) \<or> includes_str f ''__c'' \<or> f \<in> set standardFields)"

text \<open>
  A string without two consecutive spaces that neither begins nor ends with a space.
\<close>

definition wellSpaced :: "string \<Rightarrow> bool" where
  "wellSpaced s =
    (\<not> includes_str s ''  '' \<and> (s \<noteq> [] \<longrightarrow> hd s \<noteq> CHR '' '' \<and> last s \<noteq> CHR '' ''))"





section \<open>Facts about strings and lookups\<close>

lemma includes_str_sublist: "includes_str s t = sublist t s"
  by (induction s) (simp_all add: sublist_Cons_right)

lemma includes_str_iff: "includes_str s t \<longleftrightarrow> (\<exists>p r. s = p @ t @ r)"
  by (simp add: includes_str_sublist sublist_def)

lemma toUpperCase_append: "toUpperCase (a @ b) = toUpperCase a @ toUpperCase b"
  by (simp add: toUpperCase_def)

lemma valid_objects:
  "isValidObject obj \<longleftrightarrow>
     obj \<in> set [''Account'', ''Contact'', ''Lead'', ''Opportunity'', ''Case'', ''Task'', ''Event'']"
  by (simp add: isValidObject_def schemaObjects_def)

lemma getMember_valid:
  assumes "isValidObject obj"
  shows "\<exists>e. map_of schemaObjects obj = Some e \<and> getMember schemaObjects obj = Own e"
  using assms by (auto simp: isValidObject_def getMember_def)

lemma filterValid_own:
  assumes "getMember schemaObjects obj = Own e"
  shows "filterValid fs obj =
    Inr (filter (\<lambda>f. f \<in> set (schema_fields e) \<or> includes_str f ''__c''
                      \<or> f \<in> set standardFields) fs)"
  using assms by (induction fs) (simp_all add: isFieldValid_def)

lemma getDefaultFields_valid:
  assumes "isValidObject obj"
  shows "\<exists>d. getDefaultFields obj = Some (''Id'' # d) \<and> ''Id'' \<notin> set d"
proof -
  have "\<exists>d. getDefaultFields x = Some (''Id'' # d) \<and> ''Id'' \<notin> set d"
    if "x \<in> set [''Account'', ''Contact'', ''Lead'', ''Opportunity'', ''Case'', ''Task'', ''Event'']"
    for x
    using that
    by (auto simp: getDefaultFields_def orElse_def getMember_def defaultFields_def)
  then show ?thesis
    using assms by (simp only: valid_objects)
qed

lemma getDefaultConditions_valid:
  assumes "isValidObject obj"
  shows "getDefaultConditions obj = Some [''IsDeleted = false'']"
proof -
  have "getDefaultConditions x = Some [''IsDeleted = false'']"
    if "x \<in> set [''Account'', ''Contact'', ''Lead'', ''Opportunity'', ''Case'', ''Task'', ''Event'']"
    for x
    using that
    by (auto simp: getDefaultConditions_def orElse_def getMember_def defaultConditions_def)
  then show ?thesis
    using assms by (simp only: valid_objects)
qed

lemma getOrderByFields_valid:
  assumes "isValidObject obj"
  shows "\<exists>os. getOrderByFields obj = Some os \<and> os \<noteq> []"
proof -
  have "\<exists>os. getOrderByFields x = Some os \<and> os \<noteq> []"
    if "x \<in> set [''Account'', ''Contact'', ''Lead'', ''Opportunity'', ''Case'', ''Task'', ''Event'']"
    for x
    using that
    by (auto simp: getOrderByFields_def orElse_def getMember_def orderFields_def)
  then show ?thesis
    using assms by (simp only: valid_objects)
qed

lemma fieldOk_Id: "fieldOk e ''Id''"
  by (simp add: fieldOk_def standardFields_def)

lemma validFields_valid:
  assumes "isValidObject obj"
  shows "\<exists>e d. map_of schemaObjects obj = Some e \<and> getDefaultFields obj = Some (''Id'' # d)
      \<and> ''Id'' \<notin> set d
      \<and> validFields flds obj =
          Inr (filter (fieldOk e)
                (if flds = [] then ''Id'' # d
                 else if ''Id'' \<in> set flds then flds else ''Id'' # flds))"
proof -
  from getMember_valid [OF assms] obtain e
    where e: "map_of schemaObjects obj = Some e" "getMember schemaObjects obj = Own e"
    by blast
  from getDefaultFields_valid [OF assms] obtain d
    where d: "getDefaultFields obj = Some (''Id'' # d)" "''Id'' \<notin> set d"
    by blast
  have f: "filterValid fs obj = Inr (filter (fieldOk e) fs)" for fs
    using filterValid_own [OF e(2)] unfolding fieldOk_def .
  have "validFields flds obj =
          Inr (filter (fieldOk e)
                (if flds = [] then ''Id'' # d
                 else if ''Id'' \<in> set flds then flds else ''Id'' # flds))"
  proof (cases "flds = []")
    case True
    then show ?thesis
      by (simp add: validFields_def d f fieldOk_Id)
  next
    case False
    show ?thesis
    proof (cases "''Id'' \<in> set flds")
      case True
      then have "filter (fieldOk e) flds \<noteq> []"
        using fieldOk_Id [of e] by (auto simp: filter_empty_conv)
      then show ?thesis
        using True False by (simp add: validFields_def f)
    next
      case no: False
      then show ?thesis
        using False by (simp add: validFields_def f fieldOk_Id)
    qed
  qed
  then show ?thesis
    using e(1) d by blast
qed

lemma validFields_nonempty:
  assumes "isValidObject obj" and "validFields flds obj = Inr vf"
  shows "''Id'' \<in> set vf"
proof -
  from validFields_valid [OF assms(1), of flds] obtain e d
    where "validFields flds obj =
          Inr (filter (fieldOk e)
                (if flds = [] then ''Id'' # d
                 else if ''Id'' \<in> set flds then flds else ''Id'' # flds))"
    by blast
  with assms(2) show ?thesis
    using fieldOk_Id [of e] by auto
qed

lemma count_list_filter:
  "count_list (filter P xs) x = (if P x then count_list xs x else 0)"
  by (induction xs) auto

lemma set_foldl_setAdd: "set (foldl setAdd acc xs) = set acc \<union> set xs"
  by (induction xs arbitrary: acc) (auto simp: setAdd_def)

lemma set_newSet: "set (newSet xs) = set xs"
  by (simp add: newSet_def set_foldl_setAdd)

lemma distinct_foldl_setAdd: "distinct acc \<Longrightarrow> distinct (foldl setAdd acc xs)"
  by (induction xs arbitrary: acc) (auto simp: setAdd_def)

lemma distinct_newSet: "distinct (newSet xs)"
  by (simp add: newSet_def distinct_foldl_setAdd)

lemma trim_empty_iff: "trim s = [] \<longleftrightarrow> list_all isSpace s"
proof
  assume "trim s = []"
  then have "\<forall>c \<in> set (dropWhile isSpace s). isSpace c"
    by (simp add: trim_def dropWhile_eq_Nil_conv)
  then have "dropWhile isSpace s = []"
    using hd_dropWhile [of isSpace s] hd_in_set [of "dropWhile isSpace s"] by blast
  then show "list_all isSpace s"
    by (simp add: dropWhile_eq_Nil_conv list_all_iff)
next
  assume "list_all isSpace s"
  then have d: "dropWhile isSpace s = []"
    by (simp add: dropWhile_eq_Nil_conv list_all_iff)
  show "trim s = []"
    unfolding trim_def d by simp
qed

lemma trim_id:
  assumes "s \<noteq> []" and "\<not> isSpace (hd s)" and "\<not> isSpace (last s)"
  shows "trim s = s"
proof -
  have a: "dropWhile isSpace s = s"
    using assms(1,2) by (cases s) simp_all
  have "dropWhile isSpace (rev s) = rev s"
    using assms(1,3) by (cases "rev s") (simp_all add: last_rev [symmetric] del: last_rev)
  then show ?thesis
    by (simp add: trim_def a)
qed

lemma uniqueConditions_default:
  "''IsDeleted = false'' \<in> set (uniqueConditions (cs @ [''IsDeleted = false'']))"
proof -
  have "trim ''IsDeleted = false'' \<noteq> []"
    by code_simp
  then show ?thesis
    by (simp add: uniqueConditions_def set_newSet)
qed

lemma trim_select_limit:
  "trim (''SELECT '' @ x @ ''LIMIT 1000'') = ''SELECT '' @ x @ ''LIMIT 1000''"
  by (rule trim_id) (simp_all add: isSpace_def)

lemma generateSOQL_valid:
  assumes "isValidObject (object r)" and "success r"
  shows "\<exists>vf os. validFields (ai_fields r) (object r) = Inr vf \<and> ''Id'' \<in> set vf
      \<and> getOrderByFields (object r) = Some os \<and> os \<noteq> []
      \<and> generateSOQL r q =
          Inr \<lparr>soql = ''SELECT '' @ join '', '' vf @ '' FROM '' @ object r @ '' WHERE ''
                   @ join '' AND ''
                       (uniqueConditions
                         (conditions r @ extractConditionsFromQuery q (object r)
                            @ [''IsDeleted = false'']))
                   @ '' ORDER BY '' @ join '', '' os @ '' LIMIT 1000'',
               result_fields = unshiftId (ai_fields r),
               result_object = object r,
               result_conditions = conditions r\<rparr>"
proof -
  let ?obj = "object r"
  let ?ws = "conditions r @ extractConditionsFromQuery q ?obj @ [''IsDeleted = false'']"
  from getMember_valid [OF assms(1)] obtain e
    where e: "getMember schemaObjects ?obj = Own e"
    by blast
  from validFields_valid [OF assms(1), of "ai_fields r"] obtain vf
    where vf: "validFields (ai_fields r) ?obj = Inr vf"
    by blast
  have idin: "''Id'' \<in> set vf"
    using validFields_nonempty [OF assms(1) vf] .
  from getOrderByFields_valid [OF assms(1)] obtain os
    where os: "getOrderByFields ?obj = Some os" "os \<noteq> []"
    by blast
  have u: "uniqueConditions ?ws \<noteq> []"
    using uniqueConditions_default [of "conditions r @ extractConditionsFromQuery q ?obj"]
    by auto
  have sel: "buildSelectClause (ai_fields r) ?obj
      = Inr (''SELECT '' @ join '', '' vf, unshiftId (ai_fields r))"
    by (simp add: buildSelectClause_def vf)
  have wh: "buildWhereClause (conditions r) q ?obj
      = Inr (''WHERE '' @ join '' AND '' (uniqueConditions ?ws))"
    using u
    by (simp add: buildWhereClause_def whereConditions_def getDefaultConditions_valid [OF assms(1)])
  have ord: "buildOrderByClause ?obj = Inr (''ORDER BY '' @ join '', '' os)"
    by (simp add: buildOrderByClause_def os)
  have t: "trim (''SELECT '' @ join '', '' vf @ '' '' @ buildFromClause ?obj @ '' ''
        @ (''WHERE '' @ join '' AND '' (uniqueConditions ?ws)) @ '' ''
        @ (''ORDER BY '' @ join '', '' os) @ '' '' @ limitClause)
      = ''SELECT '' @ join '', '' vf @ '' FROM '' @ ?obj @ '' WHERE ''
        @ join '' AND '' (uniqueConditions ?ws) @ '' ORDER BY '' @ join '', '' os
        @ '' LIMIT 1000''"
    using trim_select_limit [of "join '', '' vf @ '' FROM '' @ ?obj @ '' WHERE ''
        @ join '' AND '' (uniqueConditions ?ws) @ '' ORDER BY '' @ join '', '' os @ '' ''"]
    by (simp add: buildFromClause_def limitClause_def)
  have "generateSOQL r q =
      Inr \<lparr>soql = trim (''SELECT '' @ join '', '' vf @ '' '' @ buildFromClause ?obj @ '' ''
        @ (''WHERE '' @ join '' AND '' (uniqueConditions ?ws)) @ '' ''
        @ (''ORDER BY '' @ join '', '' os) @ '' '' @ limitClause),
           result_fields = unshiftId (ai_fields r),
           result_object = ?obj,
           result_conditions = conditions r\<rparr>"
    using assms(2) by (simp add: generateSOQL_def e sel wh ord)
  then show ?thesis
    unfolding t using vf idin os by blast
qed
lemma isValid_invalid: "isValid (invalid msg) = False"
  by (simp add: invalid_def)

lemma includes_str_upper:
  assumes "text = a @ d @ b"
  shows "includes_str (toUpperCase text) (toUpperCase d)"
  unfolding includes_str_iff assms toUpperCase_append by blast










lemma join_member: "x \<in> set xs \<Longrightarrow> sublist x (join sep xs)"
proof (induction sep xs rule: join.induct)
  case (1 sep)
  then show ?case by simp
next
  case (2 sep y)
  then show ?case by simp
next
  case (3 sep y z zs)
  show ?case
  proof (cases "x = y")
    case True
    then show ?thesis by simp
  next
    case False
    then have "sublist x (join sep (z # zs))"
      using 3 by simp
    then obtain p s where "join sep (z # zs) = p @ x @ s"
      by (auto simp: sublist_def)
    then have "join sep (y # z # zs) = (y @ sep @ p) @ x @ s"
      by simp
    then show ?thesis
      unfolding sublist_def by blast
  qed
qed

lemma upper_includes:
  assumes "sublist x s" and "includes_str (toUpperCase x) k"
  shows "includes_str (toUpperCase s) k"
proof -
  from assms(1) obtain p r where "s = p @ x @ r"
    by (auto simp: sublist_def)
  then have "toUpperCase s = toUpperCase p @ toUpperCase x @ toUpperCase r"
    by (simp add: toUpperCase_append)
  then have "sublist (toUpperCase x) (toUpperCase s)"
    unfolding sublist_def by blast
  moreover have "sublist k (toUpperCase x)"
    using assms(2) by (simp add: includes_str_sublist)
  ultimately show ?thesis
    unfolding includes_str_sublist by (rule sublist_order.order_trans [rotated])
qed

lemma defaults_CreatedDate:
  assumes "isValidObject obj" and "getDefaultFields obj = Some ds"
  shows "''CreatedDate'' \<in> set ds"
proof -
  have "\<forall>ds. getDefaultFields x = Some ds \<longrightarrow> ''CreatedDate'' \<in> set ds"
    if "x \<in> set [''Account'', ''Contact'', ''Lead'', ''Opportunity'', ''Case'', ''Task'', ''Event'']"
    for x
    using that
    by (auto simp: getDefaultFields_def orElse_def getMember_def defaultFields_def)
  then show ?thesis
    using assms by (simp only: valid_objects)
qed

lemma validFields_defaults_CreatedDate:
  assumes "isValidObject obj" and "validFields [] obj = Inr vf"
  shows "''CreatedDate'' \<in> set vf"
proof -
  from validFields_valid [OF assms(1), of "[]"] obtain e d
    where d: "getDefaultFields obj = Some (''Id'' # d)"
      and v: "validFields [] obj = Inr (filter (fieldOk e) (''Id'' # d))"
    by auto
  have "''CreatedDate'' \<in> set (''Id'' # d)"
    using defaults_CreatedDate [OF assms(1) d] .
  moreover have "fieldOk e ''CreatedDate''"
    by (simp add: fieldOk_def standardFields_def)
  ultimately show ?thesis
    using assms(2) v by auto
qed
lemma spec_dedup_from_cong:
  "set s = set s' \<Longrightarrow> spec_dedup_from s xs = spec_dedup_from s' xs"
proof (induction xs arbitrary: s s')
  case Nil
  then show ?case by simp
next
  case (Cons x xs)
  have "spec_dedup_from (x # s) xs = spec_dedup_from (x # s') xs"
    using Cons.prems by (intro Cons.IH) simp
  moreover have "spec_dedup_from s xs = spec_dedup_from s' xs"
    using Cons.prems by (rule Cons.IH)
  ultimately show ?case
    using Cons.prems by simp
qed

lemma foldl_setAdd_spec: "foldl setAdd acc xs = acc @ spec_dedup_from acc xs"
proof (induction xs arbitrary: acc)
  case Nil
  then show ?case by simp
next
  case (Cons x xs)
  show ?case
  proof (cases "x \<in> set acc")
    case True
    then have "setAdd acc x = acc"
      by (simp add: setAdd_def)
    then show ?thesis
      using True by (simp add: Cons.IH)
  next
    case False
    then have "setAdd acc x = acc @ [x]"
      by (simp add: setAdd_def)
    moreover have "spec_dedup_from (acc @ [x]) xs = spec_dedup_from (x # acc) xs"
      by (rule spec_dedup_from_cong) simp
    ultimately show ?thesis
      using False by (simp add: Cons.IH)
  qed
qed

lemma newSet_spec: "newSet xs = spec_dedup xs"
  by (simp add: newSet_def spec_dedup_def foldl_setAdd_spec)

lemma filter_spec_dedup_from:
  "filter P (spec_dedup_from seen xs) = spec_dedup_from (filter P seen) (filter P xs)"
  by (induction xs arbitrary: seen) auto

lemma filter_spec_dedup: "filter P (spec_dedup xs) = spec_dedup (filter P xs)"
  by (simp add: spec_dedup_def filter_spec_dedup_from)

lemma isSpace_spec: "isSpace ch \<longleftrightarrow> ch \<in> set spec_whitespace"
  by (auto simp: isSpace_def spec_whitespace_def)

lemma kept_iff_not_blank: "(c \<noteq> [] \<and> trim c \<noteq> []) \<longleftrightarrow> \<not> spec_blank c"
  by (auto simp: trim_empty_iff spec_blank_def isSpace_spec [symmetric])

lemma uniqueConditions_spec:
  "uniqueConditions (ic @ qc @ df) = spec_predicates ic qc df"
  by (simp add: uniqueConditions_def spec_predicates_def kept_iff_not_blank newSet_spec
      filter_spec_dedup)
lemma double_space_append:
  "includes_str (a @ b) ''  '' \<longleftrightarrow>
     includes_str a ''  '' \<or> includes_str b ''  ''
     \<or> (a \<noteq> [] \<and> b \<noteq> [] \<and> last a = CHR '' '' \<and> hd b = CHR '' '')"
proof (induction a)
  case Nil
  then show ?case by simp
next
  case (Cons c a)
  show ?case
  proof (cases a)
    case Nil
    then show ?thesis
      by (cases b) auto
  next
    case (Cons c' a')
    then show ?thesis
      using Cons.IH by auto
  qed
qed

lemma glue:
  assumes "wellSpaced a" and "a \<noteq> []" and "wellSpaced b" and "b \<noteq> []"
    and "\<not> includes_str m ''  ''"
  shows "wellSpaced (a @ m @ b) \<and> a @ m @ b \<noteq> []"
proof -
  have "\<not> includes_str (m @ b) ''  ''"
    using assms(3-5) by (simp add: double_space_append wellSpaced_def)
  moreover have "m @ b \<noteq> []" and "hd (a @ m @ b) = hd a" and "last (a @ m @ b) = last b"
    using assms(2,4) by simp_all
  ultimately show ?thesis
    using assms(1-4) by (simp add: double_space_append wellSpaced_def)
qed

lemma join_wellSpaced:
  assumes "\<forall>x \<in> set xs. wellSpaced x \<and> x \<noteq> []" and "xs \<noteq> []"
    and "\<not> includes_str sep ''  ''"
  shows "wellSpaced (join sep xs) \<and> join sep xs \<noteq> []"
  using assms
proof (induction sep xs rule: join.induct)
  case (1 sep)
  then show ?case by simp
next
  case (2 sep x)
  then show ?case by simp
next
  case (3 sep x y ys)
  then have "wellSpaced (join sep (y # ys)) \<and> join sep (y # ys) \<noteq> []"
    by simp
  moreover have "wellSpaced x \<and> x \<noteq> []"
    using "3.prems"(1) by simp
  ultimately show ?case
    using glue [of x "join sep (y # ys)" sep] "3.prems"(3) by simp
qed
lemma schema_fields_nonempty:
  "\<forall>e \<in> set (map snd schemaObjects). [] \<notin> set (schema_fields e)"
  by code_simp

lemma fieldOk_nonempty:
  assumes "map_of schemaObjects obj = Some e" and "fieldOk e f"
  shows "f \<noteq> []"
proof -
  have "e \<in> set (map snd schemaObjects)"
    using assms(1) by (metis map_of_SomeD set_zip_rightD zip_map_fst_snd)
  then have "[] \<notin> set (schema_fields e)"
    using schema_fields_nonempty by blast
  then show ?thesis
    using assms(2) by (auto simp: fieldOk_def standardFields_def)
qed

lemma defaultFields_wellSpaced:
  "\<forall>ds \<in> set (map snd defaultFields). \<forall>f \<in> set ds. wellSpaced f"
  by code_simp

lemma getDefaultFields_wellSpaced:
  assumes "isValidObject obj" and "getDefaultFields obj = Some ds"
  shows "\<forall>f \<in> set ds. wellSpaced f"
proof -
  from assms(1) have "map_of defaultFields obj \<noteq> None"
    by (auto simp: valid_objects defaultFields_def)
  then obtain v where v: "map_of defaultFields obj = Some v"
    by blast
  then have "ds = v"
    using assms(2) by (simp add: getDefaultFields_def orElse_def getMember_def)
  moreover have "v \<in> set (map snd defaultFields)"
    using v by (metis map_of_SomeD set_zip_rightD zip_map_fst_snd)
  ultimately show ?thesis
    using defaultFields_wellSpaced by blast
qed

lemma orderFields_wellSpaced:
  "\<forall>os \<in> set (map snd orderFields). \<forall>f \<in> set os. wellSpaced f \<and> f \<noteq> []"
  by code_simp

lemma getOrderByFields_wellSpaced:
  assumes "isValidObject obj" and "getOrderByFields obj = Some os"
  shows "\<forall>f \<in> set os. wellSpaced f \<and> f \<noteq> []"
proof -
  from assms(1) have "map_of orderFields obj \<noteq> None"
    by (auto simp: valid_objects orderFields_def)
  then obtain v where v: "map_of orderFields obj = Some v"
    by blast
  then have "os = v"
    using assms(2) by (simp add: getOrderByFields_def orElse_def getMember_def)
  moreover have "v \<in> set (map snd orderFields)"
    using v by (metis map_of_SomeD set_zip_rightD zip_map_fst_snd)
  ultimately show ?thesis
    using orderFields_wellSpaced by blast
qed

lemma object_wellSpaced:
  assumes "isValidObject obj"
  shows "wellSpaced obj \<and> obj \<noteq> []"
proof -
  have "\<forall>x \<in> set [''Account'', ''Contact'', ''Lead'', ''Opportunity'', ''Case'', ''Task'',
      ''Event'']. wellSpaced x \<and> x \<noteq> []"
    by code_simp
  then show ?thesis
    using assms unfolding valid_objects by blast
qed

lemma scan_wellSpaced:
  assumes "c \<in> set (extractConditionsFromQuery q obj)"
  shows "wellSpaced c"
proof -
  have "list_all wellSpaced
     [''CreatedDate = THIS_MONTH'', ''CreatedDate = LAST_MONTH'', ''CreatedDate = THIS_QUARTER'',
      ''CreatedDate = LAST_QUARTER'', ''CreatedDate = THIS_YEAR'', ''CreatedDate = LAST_YEAR'',
      ''Active__c = true'', ''IsClosed = false'',
      ''Status != '' @ [CHR 0x27] @ ''Closed'' @ [CHR 0x27],
      ''Amount > 100000'', ''AnnualRevenue > 1000000'',
      ''Industry = '' @ [CHR 0x27] @ ''Technology'' @ [CHR 0x27]]"
    by code_simp
  then have w: "wellSpaced ''CreatedDate = THIS_MONTH''" "wellSpaced ''CreatedDate = LAST_MONTH''"
    "wellSpaced ''CreatedDate = THIS_QUARTER''" "wellSpaced ''CreatedDate = LAST_QUARTER''"
    "wellSpaced ''CreatedDate = THIS_YEAR''" "wellSpaced ''CreatedDate = LAST_YEAR''"
    "wellSpaced ''Active__c = true''" "wellSpaced ''IsClosed = false''"
    "wellSpaced (''Status != '' @ [CHR 0x27] @ ''Closed'' @ [CHR 0x27])"
    "wellSpaced ''Amount > 100000''" "wellSpaced ''AnnualRevenue > 1000000''"
    "wellSpaced (''Industry = '' @ [CHR 0x27] @ ''Technology'' @ [CHR 0x27])"
    by simp_all
  show ?thesis
    using assms unfolding extractConditionsFromQuery_def Let_def set_append Un_iff
    by (elim disjE) (auto split: if_splits intro: w w [simplified])
qed

lemma uniqueConditions_wellSpaced:
  assumes "\<forall>c \<in> set ws. wellSpaced c"
  shows "\<forall>c \<in> set (uniqueConditions ws). wellSpaced c \<and> c \<noteq> []"
  using assms by (auto simp: uniqueConditions_def set_newSet)
lemma validFields_wellSpaced:
  assumes "isValidObject obj" and "validFields flds obj = Inr vf"
    and "\<forall>f \<in> set flds. wellSpaced f"
  shows "\<forall>f \<in> set vf. wellSpaced f \<and> f \<noteq> []"
proof -
  from validFields_valid [OF assms(1), of flds] obtain e d
    where e: "map_of schemaObjects obj = Some e"
      and d: "getDefaultFields obj = Some (''Id'' # d)"
      and v: "validFields flds obj =
          Inr (filter (fieldOk e)
                (if flds = [] then ''Id'' # d
                 else if ''Id'' \<in> set flds then flds else ''Id'' # flds))"
    by blast
  have dw: "\<forall>f \<in> set (''Id'' # d). wellSpaced f"
    using getDefaultFields_wellSpaced [OF assms(1) d] .
  have "wellSpaced f \<and> f \<noteq> []" if "f \<in> set vf" for f
  proof -
    from that assms(2) v have ok: "fieldOk e f"
      and mem: "f \<in> set (''Id'' # d) \<or> f \<in> set flds"
      by (auto split: if_splits)
    from mem have "wellSpaced f"
      using dw assms(3) by blast
    then show ?thesis
      using fieldOk_nonempty [OF e ok] by simp
  qed
  then show ?thesis
    by blast
qed

lemma literal_spacing:
  "wellSpaced ''SELECT'' \<and> wellSpaced ''LIMIT 1000''
   \<and> \<not> includes_str '' '' ''  '' \<and> \<not> includes_str '' FROM '' ''  ''
   \<and> \<not> includes_str '' WHERE '' ''  '' \<and> \<not> includes_str '' ORDER BY '' ''  ''
   \<and> \<not> includes_str '', '' ''  '' \<and> \<not> includes_str '' AND '' ''  ''
   \<and> wellSpaced ''IsDeleted = false''"
  by code_simp


section \<open>The fallback scenario\<close>

text \<open>
  C1, as the specification has it: for the query "Show me accounts with high revenue"
  without a model response the fallback intent has the object Account and no fields and
  no conditions, and the assembled text selects the five default fields of Account.
  This fails: the fallback intent carries the three fields Id, Name, CreatedDate, which
  are not empty, so the defaults are not used.
\<close>

theorem fallback_scenario_counterexample:
  "\<not> (ai_fields (fallbackProcessing ''Show me accounts with high revenue'') = []
      \<and> map_sum id soql
           (generateSOQL (fallbackProcessing ''Show me accounts with high revenue'')
              ''Show me accounts with high revenue'')
          = Inr ''SELECT Id, Name, Industry, Type, CreatedDate FROM Account WHERE AnnualRevenue > 1000000 AND IsDeleted = false ORDER BY Name LIMIT 1000'')"
  by code_simp

text \<open>
  C1, amended: for that query the fallback intent is Account with the fields Id, Name,
  CreatedDate and no conditions; the scan of the query adds the one condition
  \<^verbatim>\<open>AnnualRevenue > 1000000\<close>; the assembled text selects those three fields. The text
  of the specification is the one assembled from the same intent with an empty field list.
\<close>

theorem fallback_scenario:
  "fallbackProcessing ''Show me accounts with high revenue'' =
     \<lparr>success = True, intent = ''Show me accounts with high revenue'', object = ''Account'',
      ai_fields = [''Id'', ''Name'', ''CreatedDate''], conditions = [],
      explanation =
        ''Basic processing: Show me accounts with high revenue (OpenAI not available)''\<rparr>
   \<and> extractConditionsFromQuery ''Show me accounts with high revenue'' ''Account''
       = [''AnnualRevenue > 1000000'']
   \<and> generateSOQL (fallbackProcessing ''Show me accounts with high revenue'')
         ''Show me accounts with high revenue''
       = Inr \<lparr>soql = ''SELECT Id, Name, CreatedDate FROM Account WHERE AnnualRevenue > 1000000 AND IsDeleted = false ORDER BY Name LIMIT 1000'',
              result_fields = [''Id'', ''Name'', ''CreatedDate''],
              result_object = ''Account'', result_conditions = []\<rparr>
   \<and> generateSOQL
         ((fallbackProcessing ''Show me accounts with high revenue'')\<lparr>ai_fields := []\<rparr>)
         ''Show me accounts with high revenue''
       = Inr \<lparr>soql = ''SELECT Id, Name, Industry, Type, CreatedDate FROM Account WHERE AnnualRevenue > 1000000 AND IsDeleted = false ORDER BY Name LIMIT 1000'',
              result_fields = [], result_object = ''Account'', result_conditions = []\<rparr>"
  by code_simp

section \<open>The shape of the assembled text\<close>

text \<open>
  C2, as the specification has it: the text has its five clauses once each, in their
  order, joined by single spaces, with never more than one consecutive space and no
  white space at the end. The part on consecutive spaces fails: the assembler joins the
  fields and conditions as they come, so a condition with two spaces in it, or with a
  space at its end, brings two consecutive spaces into the text.
\<close>

theorem single_spaces_counterexample:
  "map_sum id soql
     (generateSOQL \<lparr>success = True, intent = ''big accounts'', object = ''Account'',
        ai_fields = [''Id'', ''Name''], conditions = [''AnnualRevenue >  100''],
        explanation = []\<rparr> ''big accounts'')
     = Inr ''SELECT Id, Name FROM Account WHERE AnnualRevenue >  100 AND IsDeleted = false ORDER BY Name LIMIT 1000''
   \<and> includes_str
       ''SELECT Id, Name FROM Account WHERE AnnualRevenue >  100 AND IsDeleted = false ORDER BY Name LIMIT 1000''
       ''  ''
   \<and> map_sum id soql
     (generateSOQL \<lparr>success = True, intent = ''rated accounts'', object = ''Account'',
        ai_fields = [''Id'', ''Name''], conditions = [''Rating != null ''],
        explanation = []\<rparr> ''rated accounts'')
     = Inr ''SELECT Id, Name FROM Account WHERE Rating != null  AND IsDeleted = false ORDER BY Name LIMIT 1000''
   \<and> includes_str
       ''SELECT Id, Name FROM Account WHERE Rating != null  AND IsDeleted = false ORDER BY Name LIMIT 1000''
       ''  ''"
  by code_simp

text \<open>
  C2, amended: for every intent on a supported object the text is the SELECT clause, the
  FROM clause, the WHERE clause, the ORDER BY clause and \<^verbatim>\<open>LIMIT 1000\<close>, each once, in
  that order and joined by single spaces; for a supported object none of them is empty.
  The text neither begins nor ends with white space. It has no two consecutive spaces
  when no field and no condition of the intent has two consecutive spaces or a space at
  its beginning or end.
\<close>

theorem assembled_text_shape:
  assumes "isValidObject (object r)" and "success r"
  shows "\<exists>res vf ps os.
       generateSOQL r q = Inr res
     \<and> validFields (ai_fields r) (object r) = Inr vf \<and> vf \<noteq> []
     \<and> ps = uniqueConditions
              (conditions r @ extractConditionsFromQuery q (object r) @ [''IsDeleted = false''])
     \<and> ps \<noteq> []
     \<and> getOrderByFields (object r) = Some os \<and> os \<noteq> []
     \<and> soql res =
          (''SELECT '' @ join '', '' vf) @ '' '' @ (''FROM '' @ object r) @ '' ''
          @ (''WHERE '' @ join '' AND '' ps) @ '' ''
          @ (''ORDER BY '' @ join '', '' os) @ '' '' @ ''LIMIT 1000''
     \<and> \<not> isSpace (hd (soql res)) \<and> \<not> isSpace (last (soql res))
     \<and> ((\<forall>f \<in> set (ai_fields r). wellSpaced f) \<and> (\<forall>c \<in> set (conditions r). wellSpaced c)
          \<longrightarrow> \<not> includes_str (soql res) ''  '')"
proof -
  let ?obj = "object r"
  let ?ws = "conditions r @ extractConditionsFromQuery q ?obj @ [''IsDeleted = false'']"
  let ?ps = "uniqueConditions ?ws"
  from generateSOQL_valid [OF assms, of q] obtain vf os res
    where vf: "validFields (ai_fields r) ?obj = Inr vf" and idin: "''Id'' \<in> set vf"
      and os: "getOrderByFields ?obj = Some os" "os \<noteq> []"
      and res: "generateSOQL r q = Inr res"
      and tx: "soql res = ''SELECT '' @ join '', '' vf @ '' FROM '' @ ?obj @ '' WHERE ''
          @ join '' AND '' ?ps @ '' ORDER BY '' @ join '', '' os @ '' LIMIT 1000''"
    by fastforce
  have vfne: "vf \<noteq> []"
    using idin by auto
  have psne: "?ps \<noteq> []"
    using uniqueConditions_default [of "conditions r @ extractConditionsFromQuery q ?obj"]
    by auto
  have shape: "soql res =
      (''SELECT '' @ join '', '' vf) @ '' '' @ (''FROM '' @ ?obj) @ '' ''
      @ (''WHERE '' @ join '' AND '' ?ps) @ '' ''
      @ (''ORDER BY '' @ join '', '' os) @ '' '' @ ''LIMIT 1000''"
    by (simp add: tx)
  have ends: "\<not> isSpace (hd (soql res)) \<and> \<not> isSpace (last (soql res))"
    by (simp add: tx isSpace_def)
  have spaces: "\<not> includes_str (soql res) ''  ''"
    if f: "\<forall>f \<in> set (ai_fields r). wellSpaced f" and c: "\<forall>c \<in> set (conditions r). wellSpaced c"
  proof -
    note lit = literal_spacing
    have "\<forall>f \<in> set vf. wellSpaced f \<and> f \<noteq> []"
      using validFields_wellSpaced [OF assms(1) vf f] .
    then have j1: "wellSpaced (join '', '' vf) \<and> join '', '' vf \<noteq> []"
      by (rule join_wellSpaced) (use vfne lit in simp_all)
    have "\<forall>c \<in> set ?ws. wellSpaced c"
      using c scan_wellSpaced lit by auto
    then have "\<forall>c \<in> set ?ps. wellSpaced c \<and> c \<noteq> []"
      by (rule uniqueConditions_wellSpaced)
    then have j2: "wellSpaced (join '' AND '' ?ps) \<and> join '' AND '' ?ps \<noteq> []"
      by (rule join_wellSpaced) (use psne lit in simp_all)
    have "\<forall>f \<in> set os. wellSpaced f \<and> f \<noteq> []"
      using getOrderByFields_wellSpaced [OF assms(1) os(1)] .
    then have j3: "wellSpaced (join '', '' os) \<and> join '', '' os \<noteq> []"
      by (rule join_wellSpaced) (use os(2) lit in simp_all)
    have ob: "wellSpaced ?obj \<and> ?obj \<noteq> []"
      using assms(1) by (rule object_wellSpaced)
    have a1: "wellSpaced (''SELECT'' @ '' '' @ join '', '' vf)
        \<and> ''SELECT'' @ '' '' @ join '', '' vf \<noteq> []"
      by (rule glue) (use j1 lit in simp_all)
    have a2: "wellSpaced ((''SELECT'' @ '' '' @ join '', '' vf) @ '' FROM '' @ ?obj)
        \<and> (''SELECT'' @ '' '' @ join '', '' vf) @ '' FROM '' @ ?obj \<noteq> []"
      by (rule glue) (use a1 ob lit in simp_all)
    have a3: "wellSpaced (((''SELECT'' @ '' '' @ join '', '' vf) @ '' FROM '' @ ?obj)
          @ '' WHERE '' @ join '' AND '' ?ps)
        \<and> ((''SELECT'' @ '' '' @ join '', '' vf) @ '' FROM '' @ ?obj)
          @ '' WHERE '' @ join '' AND '' ?ps \<noteq> []"
      by (rule glue) (use a2 j2 lit in simp_all)
    have a4: "wellSpaced ((((''SELECT'' @ '' '' @ join '', '' vf) @ '' FROM '' @ ?obj)
          @ '' WHERE '' @ join '' AND '' ?ps) @ '' ORDER BY '' @ join '', '' os)
        \<and> (((''SELECT'' @ '' '' @ join '', '' vf) @ '' FROM '' @ ?obj)
          @ '' WHERE '' @ join '' AND '' ?ps) @ '' ORDER BY '' @ join '', '' os \<noteq> []"
      by (rule glue) (use a3 j3 lit in simp_all)
    have a5: "wellSpaced (((((''SELECT'' @ '' '' @ join '', '' vf) @ '' FROM '' @ ?obj)
          @ '' WHERE '' @ join '' AND '' ?ps) @ '' ORDER BY '' @ join '', '' os)
          @ '' '' @ ''LIMIT 1000'')"
      by (rule glue [THEN conjunct1]) (use a4 lit in simp_all)
    have e: "soql res = ((((''SELECT'' @ '' '' @ join '', '' vf) @ '' FROM '' @ ?obj)
          @ '' WHERE '' @ join '' AND '' ?ps) @ '' ORDER BY '' @ join '', '' os)
          @ '' '' @ ''LIMIT 1000''"
      by (simp add: tx)
    from a5 have "\<not> includes_str (((((''SELECT'' @ '' '' @ join '', '' vf) @ '' FROM '' @ ?obj)
          @ '' WHERE '' @ join '' AND '' ?ps) @ '' ORDER BY '' @ join '', '' os)
          @ '' '' @ ''LIMIT 1000'') ''  ''"
      unfolding wellSpaced_def by (rule conjunct1)
    then show ?thesis
      unfolding e .
  qed
  show ?thesis
    using res vf vfne psne os shape ends spaces by blast
qed

theorem assembled_text_shape_witness:
  "isValidObject ''Lead''
   \<and> wellSpaced ''Email'' \<and> wellSpaced ''Score__c'' \<and> wellSpaced ''Rating = 1''
   \<and> (\<exists>res. generateSOQL \<lparr>success = True, intent = ''leads last month'', object = ''Lead'',
          ai_fields = [''Email'', ''Score__c''], conditions = [''Rating = 1'', ''Rating = 1''],
          explanation = []\<rparr> ''leads last month'' = Inr res
       \<and> soql res = ''SELECT Id, Email, Score__c FROM Lead WHERE Rating = 1 AND CreatedDate = LAST_MONTH AND IsDeleted = false ORDER BY Name LIMIT 1000''
       \<and> \<not> isSpace (hd (soql res)) \<and> \<not> isSpace (last (soql res))
       \<and> \<not> includes_str (soql res) ''  '')"
proof -
  let ?r = "\<lparr>success = True, intent = ''leads last month'', object = ''Lead'',
          ai_fields = [''Email'', ''Score__c''], conditions = [''Rating = 1'', ''Rating = 1''],
          explanation = []\<rparr>"
  have v: "isValidObject ''Lead''"
    by (simp add: valid_objects)
  have w: "wellSpaced ''Email'' \<and> wellSpaced ''Score__c'' \<and> wellSpaced ''Rating = 1''"
    by code_simp
  have f: "\<forall>f \<in> set [''Email'', ''Score__c'']. wellSpaced f"
    using w by simp
  have c: "\<forall>c \<in> set [''Rating = 1'', ''Rating = 1'']. wellSpaced c"
    using w by simp
  have g: "generateSOQL ?r ''leads last month''
      = Inr \<lparr>soql = ''SELECT Id, Email, Score__c FROM Lead WHERE Rating = 1 AND CreatedDate = LAST_MONTH AND IsDeleted = false ORDER BY Name LIMIT 1000'',
             result_fields = [''Id'', ''Email'', ''Score__c''], result_object = ''Lead'',
             result_conditions = [''Rating = 1'', ''Rating = 1'']\<rparr>"
    by code_simp
  from assembled_text_shape [of ?r "''leads last month''"] v f c
  obtain res where "generateSOQL ?r ''leads last month'' = Inr res"
    and "\<not> isSpace (hd (soql res))" and "\<not> isSpace (last (soql res))"
    and "\<not> includes_str (soql res) ''  ''"
    by auto
  then show ?thesis
    using v w g by auto
qed

section \<open>Field validity\<close>

text \<open>
  What \<open>isFieldValid\<close> computes on a supported object: the field is in the object's
  list, or contains \<^verbatim>\<open>__c\<close> at any position (the source tests
  \<^verbatim>\<open>field.includes('__c')\<close>), or is one of the four standard fields.
\<close>

lemma isFieldValid_iff:
  assumes "isValidObject obj"
  shows "\<exists>e. map_of schemaObjects obj = Some e
     \<and> isFieldValid field obj =
         Inr (field \<in> set (schema_fields e)
              \<or> (\<exists>p s. field = p @ ''__c'' @ s)
              \<or> field \<in> set [''Id'', ''Name'', ''CreatedDate'', ''LastModifiedDate''])"
proof -
  from getMember_valid [OF assms] obtain e
    where e: "map_of schemaObjects obj = Some e" "getMember schemaObjects obj = Own e"
    by blast
  have "isFieldValid field obj =
      Inr (field \<in> set (schema_fields e) \<or> includes_str field ''__c''
           \<or> field \<in> set standardFields)"
    by (simp add: isFieldValid_def e)
  then show ?thesis
    using e(1) by (simp add: includes_str_iff standardFields_def)
qed

lemma isFieldValid_suffix:
  assumes "isValidObject obj" and "suffix ''__c'' field"
  shows "isFieldValid field obj = Inr True"
proof -
  from assms(2) obtain p where "field = p @ ''__c'' @ []"
    by (auto simp: suffix_def)
  then have "\<exists>p s. field = p @ ''__c'' @ s"
    by blast
  then show ?thesis
    using isFieldValid_iff [OF assms(1), of field] by auto
qed

text \<open>
  C5: on a supported object \<open>isFieldValid\<close> holds exactly for a field of the object's
  list, a field that ends with the custom suffix \<^verbatim>\<open>__c\<close>, and the four standard
  fields Id, Name, CreatedDate, LastModifiedDate, and is false otherwise. The source does
  not follow this: \<^verbatim>\<open>x__cy\<close> is not a field of Account, does not end with
  \<^verbatim>\<open>__c\<close> and is no standard field, and \<open>isFieldValid\<close> returns true for it.
\<close>

theorem isFieldValid_not_suffix:
  "isValidObject ''Account''
   \<and> ''x__cy'' \<notin> set accountFields
   \<and> \<not> suffix ''__c'' ''x__cy''
   \<and> ''x__cy'' \<notin> set [''Id'', ''Name'', ''CreatedDate'', ''LastModifiedDate'']
   \<and> isFieldValid ''x__cy'' ''Account'' = Inr True"
  by code_simp

section \<open>The list of selected fields\<close>

text \<open>
  C4, as the specification has it: whatever the input list, the list of the SELECT
  clause has Id exactly once, in the first place. This fails: the source adds Id in
  front only when the list has no Id at all; an Id that is already there stays where it
  is, as often as it is there.
\<close>

theorem select_list_counterexample:
  "validFields [''Name'', ''Id''] ''Account'' = Inr [''Name'', ''Id'']
   \<and> hd [''Name'', ''Id''] \<noteq> ''Id''
   \<and> validFields [''Id'', ''Name'', ''Id''] ''Account'' = Inr [''Id'', ''Name'', ''Id'']
   \<and> count_list [''Id'', ''Name'', ''Id''] ''Id'' = 2"
  by code_simp

text \<open>
  C4, amended: for every input list and every supported object the list of the SELECT
  clause contains Id; when the input list is empty or has no Id, Id is its first element
  and occurs exactly once.
\<close>

theorem select_list_has_Id:
  assumes "isValidObject obj"
  shows "\<exists>vf. validFields flds obj = Inr vf \<and> ''Id'' \<in> set vf
     \<and> (flds = [] \<or> ''Id'' \<notin> set flds \<longrightarrow> hd vf = ''Id'' \<and> count_list vf ''Id'' = 1)"
proof -
  from validFields_valid [OF assms, of flds] obtain e d
    where d: "''Id'' \<notin> set d"
      and v: "validFields flds obj =
          Inr (filter (fieldOk e)
                (if flds = [] then ''Id'' # d
                 else if ''Id'' \<in> set flds then flds else ''Id'' # flds))"
    by blast
  have c: "count_list xs ''Id'' = 0" if "''Id'' \<notin> set xs" for xs :: "string list"
    using that by (simp add: count_list_0_iff)
  show ?thesis
    unfolding v using d fieldOk_Id [of e]
    by (auto simp: count_list_filter c)
qed

theorem select_list_has_Id_witness:
  "isValidObject ''Lead'' \<and> ''Id'' \<notin> set [''Email'', ''Bogus'']
   \<and> validFields [''Email'', ''Bogus''] ''Lead'' = Inr [''Id'', ''Email'']
   \<and> (\<exists>vf. validFields [''Email'', ''Bogus''] ''Lead'' = Inr vf \<and> ''Id'' \<in> set vf
         \<and> hd vf = ''Id'' \<and> count_list vf ''Id'' = 1)"
proof -
  have v: "isValidObject ''Lead''"
    by (simp add: valid_objects)
  have n: "''Id'' \<notin> set [''Email'', ''Bogus'']"
    by simp
  have e: "validFields [''Email'', ''Bogus''] ''Lead'' = Inr [''Id'', ''Email'']"
    by code_simp
  show ?thesis
    using select_list_has_Id [OF v, of "[''Email'', ''Bogus'']"] v n e by blast
qed

section \<open>The fields of the result\<close>

text \<open>
  C10, as the specification has it: the \<open>fields\<close> of the result are the validated list
  of the SELECT clause. This fails: the result carries the array of the request. An
  unknown field stays in it, and an empty array stays empty although the clause selects
  the defaults.
\<close>

theorem result_fields_counterexample:
  "map_sum id result_fields
     (generateSOQL \<lparr>success = True, intent = ''accounts'', object = ''Account'',
        ai_fields = [''Id'', ''Bogus''], conditions = [], explanation = []\<rparr> ''accounts'')
     = Inr [''Id'', ''Bogus'']
   \<and> validFields [''Id'', ''Bogus''] ''Account'' = Inr [''Id'']
   \<and> map_sum id result_fields
     (generateSOQL \<lparr>success = True, intent = ''accounts'', object = ''Account'',
        ai_fields = [], conditions = [], explanation = []\<rparr> ''accounts'')
     = Inr []
   \<and> validFields [] ''Account'' = Inr [''Id'', ''Name'', ''Industry'', ''Type'', ''CreatedDate'']"
  by code_simp

text \<open>
  C10, amended: for every intent on a supported object the \<open>fields\<close> of the result are
  the field list of the intent, not validated: as it is when it is empty or contains Id,
  and with Id put in front otherwise (the one change \<open>buildSelectClause\<close> makes to the
  caller's array). The object and the conditions are those of the intent.
\<close>

theorem result_fields_echo:
  assumes "isValidObject (object r)" and "success r"
  shows "\<exists>res. generateSOQL r q = Inr res
     \<and> result_fields res =
         (if ai_fields r = [] \<or> ''Id'' \<in> set (ai_fields r) then ai_fields r
          else ''Id'' # ai_fields r)
     \<and> result_object res = object r
     \<and> result_conditions res = conditions r"
proof -
  from generateSOQL_valid [OF assms, of q] obtain res
    where "generateSOQL r q = Inr res"
      and "result_fields res = unshiftId (ai_fields r)"
      and "result_object res = object r"
      and "result_conditions res = conditions r"
    by fastforce
  then show ?thesis
    by (simp add: unshiftId_def)
qed

theorem result_fields_echo_witness:
  "isValidObject ''Case'' \<and> success \<lparr>success = True, intent = ''open cases'', object = ''Case'',
        ai_fields = [''Subject'', ''Bogus''], conditions = [''Priority = 1''],
        explanation = []\<rparr>
   \<and> (\<exists>res. generateSOQL \<lparr>success = True, intent = ''open cases'', object = ''Case'',
        ai_fields = [''Subject'', ''Bogus''], conditions = [''Priority = 1''],
        explanation = []\<rparr> ''open cases'' = Inr res
      \<and> result_fields res = [''Id'', ''Subject'', ''Bogus'']
      \<and> result_object res = ''Case''
      \<and> result_conditions res = [''Priority = 1''])"
proof -
  have v: "isValidObject ''Case''"
    by (simp add: valid_objects)
  show ?thesis
    using result_fields_echo [of "\<lparr>success = True, intent = ''open cases'', object = ''Case'',
        ai_fields = [''Subject'', ''Bogus''], conditions = [''Priority = 1''],
        explanation = []\<rparr>" "''open cases''"] v
    by simp
qed

section \<open>Unsupported objects\<close>

lemma generateSOQL_missing:
  assumes "success r" and "getMember schemaObjects (object r) = Missing"
  shows "generateSOQL r q = Inl (Error (''Unsupported object: '' @ object r))"
  using assms by (simp add: generateSOQL_def)

lemma inherited_tables:
  assumes "getMember schemaObjects obj = Inherited"
  shows "getDefaultFields obj = None"
proof -
  from assms have n: "map_of schemaObjects obj = None" and p: "obj \<in> set objectPrototype"
    by (auto simp: getMember_def split: option.splits if_splits)
  from n have "\<not> isValidObject obj"
    by (simp add: isValidObject_def)
  then have "map_of defaultFields obj = None"
    by (simp add: valid_objects defaultFields_def)
  then show ?thesis
    using p by (simp add: getDefaultFields_def orElse_def getMember_def)
qed

lemma generateSOQL_inherited:
  assumes "success r" and "getMember schemaObjects (object r) = Inherited"
  shows "generateSOQL r q = Inl TypeError"
proof -
  have "validFields (ai_fields r) (object r) = Inl TypeError"
  proof (cases "ai_fields r")
    case Nil
    then show ?thesis
      by (simp add: validFields_def inherited_tables [OF assms(2)])
  next
    case (Cons f fs)
    have "filterValid (x # xs) (object r) = Inl TypeError" for x xs
      by (simp add: isFieldValid_def assms(2))
    then show ?thesis
      using Cons by (simp add: validFields_def)
  qed
  then show ?thesis
    using assms by (simp add: generateSOQL_def buildSelectClause_def)
qed

text \<open>
  C6: \<open>generateSOQL\<close> fails with the error "Unsupported object" exactly when the object
  has no entry in the schema, and never fails for an object that has one. The second
  half holds (\<open>generateSOQL_valid\<close>), and so does the first for every name that is not a
  member of \<^verbatim>\<open>Object.prototype\<close> (\<open>generateSOQL_missing\<close>). For a name such as
  \<^verbatim>\<open>constructor\<close> the source's test \<^verbatim>\<open>!this.schema.objects[object]\<close> finds the
  inherited member, lets the object pass, and the call ends in a \<^verbatim>\<open>TypeError\<close> caught
  by the \<^verbatim>\<open>catch\<close> branch: a failure, with another error than the one for an
  unsupported object. \<^verbatim>\<open>salesforceMapping.isValidObject\<close> tests the same with
  \<^verbatim>\<open>hasOwnProperty\<close> and rejects the name.
\<close>

theorem generateSOQL_constructor:
  "isValidObject ''constructor'' = False
   \<and> generateSOQL \<lparr>success = True, intent = ''list constructors'', object = ''constructor'',
        ai_fields = [''Id'', ''Name''], conditions = [], explanation = []\<rparr> ''list constructors''
      = Inl TypeError
   \<and> generateSOQL \<lparr>success = True, intent = ''list widgets'', object = ''Widget'',
        ai_fields = [''Id'', ''Name''], conditions = [], explanation = []\<rparr> ''list widgets''
      = Inl (Error ''Unsupported object: Widget'')"
  by code_simp

section \<open>The validator: forbidden keywords\<close>

text \<open>
  C8, as the specification has it: every text that contains DROP, in any letter case and
  at any position, is rejected with the reason that cites the keyword DROP. This fails:
  the checks run in a fixed order and the first failing one gives the reason. A text
  without SELECT is rejected for that, and a text that also contains DELETE (as every
  assembled text does, in \<^verbatim>\<open>IsDeleted\<close>) is rejected for DELETE.
\<close>

theorem drop_reason_counterexample:
  "includes_str (toUpperCase ''drop table Account'') ''DROP''
   \<and> validateSOQL ''drop table Account'' = invalid ''Missing SELECT clause''
   \<and> includes_str
        (toUpperCase ''SELECT Id, Name FROM Account WHERE IsDeleted = false ORDER BY Name LIMIT 1000; DROP TABLE Account'')
        ''DROP''
   \<and> validateSOQL ''SELECT Id, Name FROM Account WHERE IsDeleted = false ORDER BY Name LIMIT 1000; DROP TABLE Account''
       = invalid ''Forbidden keyword detected: DELETE''"
  by code_simp

text \<open>
  C8, amended: every text that contains DROP, in any letter case and at any position,
  is rejected. The reason cites the keyword DROP when the text passes the checks made
  before: it contains "SELECT " and " FROM " (in any case) and none of INSERT, UPDATE,
  DELETE, the keywords tested before DROP.
\<close>

theorem validateSOQL_rejects_drop:
  assumes "text = a @ d @ b" and "toUpperCase d = ''DROP''"
  shows "\<not> isValid (validateSOQL text)
     \<and> (includes_str (toUpperCase text) ''SELECT ''
        \<and> includes_str (toUpperCase text) '' FROM ''
        \<and> \<not> includes_str (toUpperCase text) ''INSERT''
        \<and> \<not> includes_str (toUpperCase text) ''UPDATE''
        \<and> \<not> includes_str (toUpperCase text) ''DELETE''
        \<longrightarrow> validateSOQL text = invalid ''Forbidden keyword detected: DROP'')"
proof -
  have dr: "includes_str (toUpperCase text) ''DROP''"
    using includes_str_upper [OF assms(1)] assms(2) by simp
  have ne: "text \<noteq> []"
    using assms by (auto simp: toUpperCase_def)
  have "find (includes_str (toUpperCase text)) forbiddenKeywords \<noteq> None"
    using dr by (simp add: find_None_iff forbiddenKeywords_def)
  then obtain k where k: "find (includes_str (toUpperCase text)) forbiddenKeywords = Some k"
    by blast
  have rejected: "\<not> isValid (validateSOQL text)"
    by (simp add: validateSOQL_def k isValid_invalid)
  have cited: "validateSOQL text = invalid ''Forbidden keyword detected: DROP''"
    if "includes_str (toUpperCase text) ''SELECT ''"
      and "includes_str (toUpperCase text) '' FROM ''"
      and "\<not> includes_str (toUpperCase text) ''INSERT''"
      and "\<not> includes_str (toUpperCase text) ''UPDATE''"
      and "\<not> includes_str (toUpperCase text) ''DELETE''"
  proof -
    have "find (includes_str (toUpperCase text)) forbiddenKeywords = Some ''DROP''"
      using that dr by (simp add: forbiddenKeywords_def)
    then show ?thesis
      using ne that by (simp add: validateSOQL_def)
  qed
  show ?thesis
    using rejected cited by blast
qed

theorem validateSOQL_rejects_drop_witness:
  "''select Id from Account; dRoP table Account limit 5''
     = ''select Id from Account; '' @ ''dRoP'' @ '' table Account limit 5''
   \<and> toUpperCase ''dRoP'' = ''DROP''
   \<and> \<not> isValid (validateSOQL ''select Id from Account; dRoP table Account limit 5'')
   \<and> validateSOQL ''select Id from Account; dRoP table Account limit 5''
       = invalid ''Forbidden keyword detected: DROP''"
proof -
  let ?t = "''select Id from Account; dRoP table Account limit 5''"
  have s: "?t = ''select Id from Account; '' @ ''dRoP'' @ '' table Account limit 5''"
    by simp
  have u: "toUpperCase ''dRoP'' = ''DROP''"
    by code_simp
  have c: "includes_str (toUpperCase ?t) ''SELECT ''
        \<and> includes_str (toUpperCase ?t) '' FROM ''
        \<and> \<not> includes_str (toUpperCase ?t) ''INSERT''
        \<and> \<not> includes_str (toUpperCase ?t) ''UPDATE''
        \<and> \<not> includes_str (toUpperCase ?t) ''DELETE''"
    by code_simp
  show ?thesis
    using validateSOQL_rejects_drop [OF s u] s u c by blast
qed

section \<open>The validator: the LIMIT rules\<close>

text \<open>
  C9, as the specification has it: a text without the substring " LIMIT " (in any letter
  case) is rejected as missing the LIMIT clause, and a text with LIMIT 5000 is rejected
  with the reason that the limit is exceeded. This fails for a text that does not pass
  the checks made before: those checks give the reason. A text with
  \<^verbatim>\<open>IsDeleted = false\<close>, as every assembled text has it, is rejected for the keyword
  DELETE, with or without LIMIT, and the bare text \<^verbatim>\<open>LIMIT 5000\<close> for its missing
  SELECT.
\<close>

theorem limit_reason_counterexample:
  "\<not> includes_str (toUpperCase ''SELECT Id FROM Account WHERE IsDeleted = false'') '' LIMIT ''
   \<and> validateSOQL ''SELECT Id FROM Account WHERE IsDeleted = false''
       = invalid ''Forbidden keyword detected: DELETE''
   \<and> validateSOQL ''SELECT Id FROM Account WHERE IsDeleted = false LIMIT 5000''
       = invalid ''Forbidden keyword detected: DELETE''
   \<and> validateSOQL ''LIMIT 5000'' = invalid ''Missing SELECT clause''"
  by code_simp



section \<open>The validator on the assembled text\<close>

text \<open>
  C3: for every intent on a supported object the validator rejects the text that
  \<open>generateSOQL\<close> assembles, with a forbidden keyword as the reason. The default
  condition \<^verbatim>\<open>IsDeleted = false\<close> is always in the WHERE clause, so the text in upper
  case contains DELETE (and CREATE, from \<^verbatim>\<open>CreatedDate\<close>, when the default fields are
  selected); the keyword reported is the first of INSERT, UPDATE, DELETE in the text.
\<close>

theorem assembled_text_rejected:
  assumes "isValidObject (object r)" and "success r"
  shows "\<exists>res kw. generateSOQL r q = Inr res
     \<and> includes_str (toUpperCase (soql res)) ''DELETE''
     \<and> (ai_fields r = [] \<longrightarrow> includes_str (toUpperCase (soql res)) ''CREATE'')
     \<and> kw \<in> set [''INSERT'', ''UPDATE'', ''DELETE'']
     \<and> validateSOQL (soql res) = invalid (''Forbidden keyword detected: '' @ kw)"
proof -
  let ?ws = "conditions r @ extractConditionsFromQuery q (object r) @ [''IsDeleted = false'']"
  let ?J = "join '' AND '' (uniqueConditions ?ws)"
  from generateSOQL_valid [OF assms, of q] obtain vf os res
    where vf: "validFields (ai_fields r) (object r) = Inr vf"
      and res: "generateSOQL r q = Inr res"
      and tx: "soql res = ''SELECT '' @ join '', '' vf @ '' FROM '' @ object r @ '' WHERE ''
          @ ?J @ '' ORDER BY '' @ join '', '' os @ '' LIMIT 1000''"
    by fastforce
  let ?t = "soql res"
  have "sublist ''IsDeleted = false'' ?J"
    using uniqueConditions_default [of "conditions r @ extractConditionsFromQuery q (object r)"]
    by (simp add: join_member)
  then obtain p s where "?J = p @ ''IsDeleted = false'' @ s"
    by (auto simp: sublist_def)
  then have "?t = (''SELECT '' @ join '', '' vf @ '' FROM '' @ object r @ '' WHERE '' @ p)
      @ ''IsDeleted = false'' @ (s @ '' ORDER BY '' @ join '', '' os @ '' LIMIT 1000'')"
    by (simp add: tx)
  then have "sublist ''IsDeleted = false'' ?t"
    unfolding sublist_def by blast
  moreover have "includes_str (toUpperCase ''IsDeleted = false'') ''DELETE''"
    by code_simp
  ultimately have del: "includes_str (toUpperCase ?t) ''DELETE''"
    by (rule upper_includes)
  have cre: "includes_str (toUpperCase ?t) ''CREATE''" if "ai_fields r = []"
  proof -
    have "''CreatedDate'' \<in> set vf"
      using validFields_defaults_CreatedDate [OF assms(1)] vf that by simp
    then have "sublist ''CreatedDate'' (join '', '' vf)"
      by (rule join_member)
    then obtain p s where "join '', '' vf = p @ ''CreatedDate'' @ s"
      by (auto simp: sublist_def)
    then have "?t = (''SELECT '' @ p) @ ''CreatedDate''
        @ (s @ '' FROM '' @ object r @ '' WHERE '' @ ?J @ '' ORDER BY '' @ join '', '' os
           @ '' LIMIT 1000'')"
      by (simp add: tx)
    then have "sublist ''CreatedDate'' ?t"
      unfolding sublist_def by blast
    moreover have "includes_str (toUpperCase ''CreatedDate'') ''CREATE''"
      by code_simp
    ultimately show ?thesis
      by (rule upper_includes)
  qed
  have "sublist ''SELECT '' ?t"
    unfolding tx by (rule sublist_append_rightI)
  moreover have "includes_str (toUpperCase ''SELECT '') ''SELECT ''"
    by code_simp
  ultimately have sel: "includes_str (toUpperCase ?t) ''SELECT ''"
    by (rule upper_includes)
  have "?t = (''SELECT '' @ join '', '' vf) @ '' FROM ''
      @ (object r @ '' WHERE '' @ ?J @ '' ORDER BY '' @ join '', '' os @ '' LIMIT 1000'')"
    by (simp add: tx)
  then have "sublist '' FROM '' ?t"
    unfolding sublist_def by blast
  moreover have "includes_str (toUpperCase '' FROM '') '' FROM ''"
    by code_simp
  ultimately have frm: "includes_str (toUpperCase ?t) '' FROM ''"
    by (rule upper_includes)
  have ne: "?t \<noteq> []"
    by (simp add: tx)
  define kw where "kw =
    (if includes_str (toUpperCase ?t) ''INSERT'' then ''INSERT''
     else if includes_str (toUpperCase ?t) ''UPDATE'' then ''UPDATE'' else ''DELETE'')"
  have kw: "kw \<in> set [''INSERT'', ''UPDATE'', ''DELETE'']"
    by (simp add: kw_def)
  have f: "find (includes_str (toUpperCase ?t)) forbiddenKeywords = Some kw"
    using del by (simp add: forbiddenKeywords_def kw_def)
  have "validateSOQL ?t = invalid (''Forbidden keyword detected: '' @ kw)"
    using ne sel frm by (simp add: validateSOQL_def f)
  then show ?thesis
    using res del cre kw by blast
qed

theorem assembled_text_rejected_witness:
  "isValidObject ''Opportunity''
   \<and> success \<lparr>success = True, intent = ''big deals'', object = ''Opportunity'',
        ai_fields = [], conditions = [''Amount > 5''], explanation = []\<rparr>
   \<and> (\<exists>res kw. generateSOQL \<lparr>success = True, intent = ''big deals'', object = ''Opportunity'',
        ai_fields = [], conditions = [''Amount > 5''], explanation = []\<rparr> ''big deals''
          = Inr res
       \<and> includes_str (toUpperCase (soql res)) ''DELETE''
       \<and> includes_str (toUpperCase (soql res)) ''CREATE''
       \<and> kw \<in> set [''INSERT'', ''UPDATE'', ''DELETE'']
       \<and> validateSOQL (soql res) = invalid (''Forbidden keyword detected: '' @ kw))"
proof -
  have v: "isValidObject ''Opportunity''"
    by (simp add: valid_objects)
  show ?thesis
    using assembled_text_rejected [of "\<lparr>success = True, intent = ''big deals'',
        object = ''Opportunity'', ai_fields = [], conditions = [''Amount > 5''],
        explanation = []\<rparr>" "''big deals''"] v
    by simp
qed

section \<open>The WHERE clause\<close>

text \<open>
  C7: for every intent and supported object the WHERE clause that \<open>buildWhereClause\<close>
  returns is the one of the specification: the conditions of the intent, then those
  scanned from the query, then the default filters of the object, deduplicated by
  equality with the first occurrence kept, without the entries that are empty or white
  space only (the no-break space counts as white space), joined with
  \<^verbatim>\<open>" AND "\<close> after WHERE, and empty when no predicate is left. The predicates joined are
  pairwise different.
\<close>

theorem where_clause_refines_spec:
  assumes "isValidObject obj"
  shows "\<exists>d. getDefaultConditions obj = Some d
     \<and> buildWhereClause conds q obj
         = Inr (spec_where conds (extractConditionsFromQuery q obj) d)
     \<and> uniqueConditions (conds @ extractConditionsFromQuery q obj @ d)
         = spec_predicates conds (extractConditionsFromQuery q obj) d
     \<and> distinct (spec_predicates conds (extractConditionsFromQuery q obj) d)"
proof -
  let ?qc = "extractConditionsFromQuery q obj"
  let ?d = "[''IsDeleted = false'']"
  have d: "getDefaultConditions obj = Some ?d"
    using assms by (rule getDefaultConditions_valid)
  have u: "uniqueConditions (conds @ ?qc @ ?d) = spec_predicates conds ?qc ?d"
    by (rule uniqueConditions_spec)
  have "buildWhereClause conds q obj = Inr (spec_where conds ?qc ?d)"
    by (simp add: buildWhereClause_def whereConditions_def d u spec_where_def)
  moreover have "distinct (spec_predicates conds ?qc ?d)"
    unfolding u [symmetric] uniqueConditions_def by (rule distinct_newSet)
  ultimately show ?thesis
    using d u by blast
qed

theorem where_clause_refines_spec_witness:
  "isValidObject ''Opportunity''
   \<and> buildWhereClause [''IsClosed = false'', '''', [CHR '' '', CHR 0xA0, CHR 0x09], ''Amount > 5'', ''Amount > 5'']
        ''open deals this quarter'' ''Opportunity''
      = Inr ''WHERE IsClosed = false AND Amount > 5 AND CreatedDate = THIS_QUARTER AND IsDeleted = false''
   \<and> distinct [''IsClosed = false'', ''Amount > 5'', ''CreatedDate = THIS_QUARTER'',
        ''IsDeleted = false'']"
proof -
  let ?c = "[''IsClosed = false'', '''', [CHR '' '', CHR 0xA0, CHR 0x09], ''Amount > 5'', ''Amount > 5'']"
  have v: "isValidObject ''Opportunity''"
    by (simp add: valid_objects)
  have d: "getDefaultConditions ''Opportunity'' = Some [''IsDeleted = false'']"
    by code_simp
  have e: "extractConditionsFromQuery ''open deals this quarter'' ''Opportunity''
      = [''CreatedDate = THIS_QUARTER'', ''IsClosed = false'']"
    by code_simp
  have p: "spec_predicates ?c [''CreatedDate = THIS_QUARTER'', ''IsClosed = false'']
        [''IsDeleted = false'']
      = [''IsClosed = false'', ''Amount > 5'', ''CreatedDate = THIS_QUARTER'',
         ''IsDeleted = false'']"
    by code_simp
  have w: "spec_where ?c [''CreatedDate = THIS_QUARTER'', ''IsClosed = false'']
        [''IsDeleted = false'']
      = ''WHERE IsClosed = false AND Amount > 5 AND CreatedDate = THIS_QUARTER AND IsDeleted = false''"
    by code_simp
  from where_clause_refines_spec [OF v, of ?c "''open deals this quarter''"]
  obtain d0 where d0: "getDefaultConditions ''Opportunity'' = Some d0"
    and b: "buildWhereClause ?c ''open deals this quarter'' ''Opportunity''
      = Inr (spec_where ?c
          (extractConditionsFromQuery ''open deals this quarter'' ''Opportunity'') d0)"
    and c: "distinct (spec_predicates ?c
          (extractConditionsFromQuery ''open deals this quarter'' ''Opportunity'') d0)"
    by blast
  have "d0 = [''IsDeleted = false'']"
    using d0 d by simp
  then show ?thesis
    using v b c unfolding e by (simp only: p w simp_thms)
qed

end
